theory Spec2Isabelle
  imports Complex_Main "HOL-Library.Word"
begin

section \<open>BeiDou B2a CNAV2 telemetry decoder: frame synchronisation\<close>

text \<open>
  A shallow embedding of \<^verbatim>\<open>beidou_b2a_telemetry_decoder_cc.cc\<close>: the constructor,
  \<^verbatim>\<open>decode_string\<close> and \<^verbatim>\<open>general_work\<close>. One call of \<^verbatim>\<open>general_work\<close> is a function
  from the decoder object and one input item to either an error or the updated object
  together with what the call wrote to the scheduler.

  Conventions of the embedding.
  \<^item> A \<^verbatim>\<open>double\<close> is a value of the type \<open>double\<close> below: a finite number, an infinity
    or NaN. Comparison with zero, negation and \<^verbatim>\<open>floor\<close> are exact in IEEE arithmetic and
    are defined on that type. Addition, subtraction, multiplication and division round
    their result; they are parameters of the model (\<open>double_arith\<close>), and nothing below
    depends on what they round to.
  \<^item> \<^verbatim>\<open>preamble_diff\<close> is declared \<^verbatim>\<open>int32_t\<close> (line 241): the difference of the two
    counters is narrowed to 32 bits (\<open>narrow_int32\<close>). \<^verbatim>\<open>corr_value\<close> adds or subtracts one
    template value per preamble symbol and is an integer.
  \<^item> The header declaring the member types is not part of the sources at hand. The sample
    counter, the preamble index and the CRC error counter only ever count upwards from
    zero and are natural numbers here, without wrap-around.
  \<^item> \<^verbatim>\<open>set_satellite\<close> and \<^verbatim>\<open>set_channel\<close> only assign \<^verbatim>\<open>d_satellite\<close> and \<^verbatim>\<open>d_channel\<close>
    and open the dump file; they and the log output are left out.
  \<^item> \<^verbatim>\<open>std::deque::at\<close> throws \<^verbatim>\<open>std::out_of_range\<close>; \<^verbatim>\<open>assert\<close> aborts; an access outside
    a C array is undefined behaviour. All three are error values of the model.
\<close>

subsection \<open>Data\<close>

datatype error = Out_Of_Range | Assertion_Failed | Array_Bounds

text \<open>
  The values of a \<^verbatim>\<open>double\<close>. A finite value is given by the real number it stands for;
  \<^verbatim>\<open>0.0\<close> and \<^verbatim>\<open>-0.0\<close> are both \<open>Finite 0\<close>, since no operation used here tells them apart.
\<close>

datatype double = Finite real | PInf | NInf | NaN

text \<open>The comparison \<^verbatim>\<open>x < 0\<close>: false for NaN.\<close>

fun lt_zero :: "double \<Rightarrow> bool" where
  "lt_zero (Finite r) = (r < 0)"
| "lt_zero PInf = False"
| "lt_zero NInf = True"
| "lt_zero NaN = False"

text \<open>The comparison \<^verbatim>\<open>x > 0\<close>: false for NaN.\<close>

fun gt_zero :: "double \<Rightarrow> bool" where
  "gt_zero (Finite r) = (r > 0)"
| "gt_zero PInf = True"
| "gt_zero NInf = False"
| "gt_zero NaN = False"

text \<open>The negation \<^verbatim>\<open>-x\<close>.\<close>

fun dneg :: "double \<Rightarrow> double" where
  "dneg (Finite r) = Finite (- r)"
| "dneg PInf = NInf"
| "dneg NInf = PInf"
| "dneg NaN = NaN"

text \<open>\<^verbatim>\<open>floor\<close>: the largest integral value not above \<open>x\<close>, as a \<^verbatim>\<open>double\<close>.\<close>

fun dfloor :: "double \<Rightarrow> double" where
  "dfloor (Finite r) = Finite (of_int \<lfloor>r\<rfloor>)"
| "dfloor PInf = PInf"
| "dfloor NInf = NInf"
| "dfloor NaN = NaN"

text \<open>The rounding operations of \<^verbatim>\<open>double\<close> arithmetic, not interpreted.\<close>

record double_arith =
  dadd :: "double \<Rightarrow> double \<Rightarrow> double"
  dsub :: "double \<Rightarrow> double \<Rightarrow> double"
  dmul :: "double \<Rightarrow> double \<Rightarrow> double"
  ddiv :: "double \<Rightarrow> double \<Rightarrow> double"

text \<open>
  The conversion of an integer to \<^verbatim>\<open>int32_t\<close>: the value modulo \<open>2 ^ 32\<close>, read as a signed
  32-bit number.
\<close>

definition narrow_int32 :: "int \<Rightarrow> int" where
  "narrow_int32 n = sint (word_of_int n :: 32 word)"

text \<open>The fields of \<^verbatim>\<open>Gnss_Synchro\<close> that the block reads or writes.\<close>

record Gnss_Synchro =
  Prompt_I :: double
  Tracking_sample_counter :: nat
  PRN :: nat
  Flag_valid_word :: bool
  TOW_at_current_symbol_ms :: double

text \<open>
  The constants of \<^verbatim>\<open>Beidou_B2a.h\<close>. The header is not part of the sources at hand, so
  the constants are parameters of every definition below.
\<close>

record constants =
  BEIDOU_CNAV2_PREAMBLE :: "nat list"
  BEIDOU_CNAV2_PREAMBLE_LENGTH_BITS :: nat
  BEIDOU_CNAV2_PREAMBLE_LENGTH_SYMBOLS :: nat
  BEIDOU_CNAV2_TELEMETRY_SYMBOLS_PER_PREAMBLE_BIT :: nat
  BEIDOU_CNAV2_STRING_SYMBOLS :: nat
  BEIDOU_CNAV2_DATA_SYMBOLS :: nat
  BEIDOU_CNAV2_PREAMBLE_PERIOD_SYMBOLS :: nat
  BEIDOU_CNAV2_PREAMBLE_DURATION_S :: double
  BEIDOU_B2a_CODE_PERIOD :: double

definition CRC_ERROR_LIMIT :: nat where
  "CRC_ERROR_LIMIT = 8"

text \<open>
  The navigation message object \<^verbatim>\<open>d_nav\<close>: the public members the block reads or
  assigns, and the rest of the object as \<open>internal\<close>. \<open>SOW\<close> and \<open>SatType\<close> are the
  members \<^verbatim>\<open>cnav2_ephemeris.SOW\<close> and \<^verbatim>\<open>cnav2_ephemeris.SatType\<close>.
\<close>

record 'i nav =
  flag_CRC_test :: bool
  flag_TOW_new :: bool
  flag_TOW_set :: bool
  flag_update_slot_number :: bool
  i_alm_satellite_slot_number :: nat
  SOW :: double
  SatType :: nat
  internal :: 'i

text \<open>
  The methods of the collaborators whose code is not part of the sources at hand:
  the navigation message class and \<^verbatim>\<open>Gnss_Satellite::update_PRN\<close>. The \<^verbatim>\<open>have_new_\<close>
  methods are not \<^verbatim>\<open>const\<close>, so they return the object as well.
\<close>

record 'i collaborator =
  string_decoder :: "'i nav \<Rightarrow> string \<Rightarrow> 'i nav"
  have_new_ephemeris :: "'i nav \<Rightarrow> bool \<times> 'i nav"
  have_new_utc_model :: "'i nav \<Rightarrow> bool \<times> 'i nav"
  have_new_almanac :: "'i nav \<Rightarrow> bool \<times> 'i nav"
  update_PRN :: "nat \<Rightarrow> nat \<Rightarrow> nat"

text \<open>What is published on the message port; the payload objects are not modelled.\<close>

datatype telemetry_msg = Ephemeris_msg | Utc_Model_msg | Almanac_msg nat

datatype dump_item = Dump_double double | Dump_ulong nat

text \<open>
  The decoder object. \<open>d_satellite\<close> holds the PRN of the satellite object. The members
  \<^verbatim>\<open>Flag_valid_word\<close> and \<^verbatim>\<open>flag_TOW_set\<close> of the block are assigned in the constructor
  and never read; they are left out.
\<close>

record 'i decoder =
  d_dump :: bool
  d_satellite :: nat
  d_symbols_per_preamble :: nat
  d_preambles_symbols :: "int list"
  d_sample_counter :: nat
  d_stat :: nat
  d_preamble_index :: nat
  d_flag_frame_sync :: bool
  d_flag_parity :: bool
  d_TOW_at_current_symbol :: double
  delta_t :: double
  d_CRC_error_counter :: nat
  d_flag_preamble :: bool
  d_channel :: int
  d_preamble_time_samples :: nat
  d_symbol_history :: "Gnss_Synchro list"
  d_nav :: "'i nav"
  telemetry_port :: "telemetry_msg list"
  d_dump_file :: "dump_item list"

text \<open>What one call of \<^verbatim>\<open>general_work\<close> tells the scheduler.\<close>

record work_result =
  consumed :: nat
  produced :: "Gnss_Synchro list"
  returned :: int

subsection \<open>Constructor\<close>

text \<open>
  The local array \<^verbatim>\<open>preambles_bits\<close>: the initialiser, zero-filled to the declared length.
\<close>

definition preambles_bits :: "constants \<Rightarrow> nat list" where
  "preambles_bits cfg =
     take (BEIDOU_CNAV2_PREAMBLE_LENGTH_BITS cfg)
       (BEIDOU_CNAV2_PREAMBLE cfg @ replicate (BEIDOU_CNAV2_PREAMBLE_LENGTH_BITS cfg) 0)"

text \<open>The two nested loops that expand the preamble bits into the symbol template.\<close>

definition expand_preamble :: "constants \<Rightarrow> int list" where
  "expand_preamble cfg =
     concat (map (\<lambda>b. replicate (BEIDOU_CNAV2_TELEMETRY_SYMBOLS_PER_PREAMBLE_BIT cfg)
                         (if b = 1 then 1 else - 1))
                 (preambles_bits cfg))"

text \<open>
  The buffer \<^verbatim>\<open>d_preambles_symbols\<close> is allocated with \<^verbatim>\<open>d_symbols_per_preamble\<close> entries;
  writing more entries than that overruns it.
\<close>

definition make_decoder ::
  "constants \<Rightarrow> nat \<Rightarrow> bool \<Rightarrow> 'i nav \<Rightarrow> error + 'i decoder" where
  "make_decoder cfg prn dump nav0 =
     (if BEIDOU_CNAV2_PREAMBLE_LENGTH_SYMBOLS cfg < length (expand_preamble cfg)
      then Inl Array_Bounds
      else Inr \<lparr> d_dump = dump,
                 d_satellite = prn,
                 d_symbols_per_preamble = BEIDOU_CNAV2_PREAMBLE_LENGTH_SYMBOLS cfg,
                 d_preambles_symbols = expand_preamble cfg,
                 d_sample_counter = 0,
                 d_stat = 0,
                 d_preamble_index = 0,
                 d_flag_frame_sync = False,
                 d_flag_parity = False,
                 d_TOW_at_current_symbol = Finite 0,
                 delta_t = Finite 0,
                 d_CRC_error_counter = 0,
                 d_flag_preamble = False,
                 d_channel = 0,
                 d_preamble_time_samples = 0,
                 d_symbol_history = [],
                 d_nav = nav0,
                 telemetry_port = [],
                 d_dump_file = [] \<rparr>)"

subsection \<open>Symbol history access\<close>

definition deque_at :: "'a list \<Rightarrow> nat \<Rightarrow> error + 'a" where
  "deque_at xs i = (if i < length xs then Inr (xs ! i) else Inl Out_Of_Range)"

subsection \<open>Preamble correlation\<close>

text \<open>
  The loop of lines 259--269, from index \<open>i\<close> with the running \<^verbatim>\<open>corr_value\<close>. Reading
  the template past the entries the constructor wrote is an error.
\<close>

function corr_loop ::
  "int list \<Rightarrow> Gnss_Synchro list \<Rightarrow> nat \<Rightarrow> nat \<Rightarrow> int \<Rightarrow> error + int" where
  "corr_loop tmpl hist n i corr_value =
     (if i < n then
        (if \<not> i < length hist then Inl Out_Of_Range
         else if \<not> i < length tmpl then Inl Array_Bounds
         else if lt_zero (Prompt_I (hist ! i))
              then corr_loop tmpl hist n (i + 1) (corr_value - tmpl ! i)
              else corr_loop tmpl hist n (i + 1) (corr_value + tmpl ! i))
      else Inr corr_value)"
  by pat_completeness auto
termination
  by (relation "measure (\<lambda>(tmpl, hist, n, i, c). n - i)") auto

declare corr_loop.simps [simp del]

text \<open>Lines 256--270: the correlation runs only on a window longer than one string.\<close>

definition preamble_correlation ::
  "constants \<Rightarrow> int list \<Rightarrow> nat \<Rightarrow> Gnss_Synchro list \<Rightarrow> error + int" where
  "preamble_correlation cfg tmpl spp hist =
     (if length hist > BEIDOU_CNAV2_STRING_SYMBOLS cfg
      then corr_loop tmpl hist spp 0 0
      else Inr 0)"

subsection \<open>Frame decoding\<close>

text \<open>
  Lines 321--331: the data symbols of the window, with the polarity of \<^verbatim>\<open>corr_value\<close>,
  are stored into the array \<^verbatim>\<open>string_symbols\<close>.
\<close>

function extract_loop ::
  "Gnss_Synchro list \<Rightarrow> nat \<Rightarrow> int \<Rightarrow> nat \<Rightarrow> nat \<Rightarrow> double list \<Rightarrow>
     error + double list" where
  "extract_loop hist spp corr_value n i string_symbols =
     (if i < n then
        (if \<not> i + spp < length hist then Inl Out_Of_Range
         else if \<not> i < length string_symbols then Inl Array_Bounds
         else if corr_value > 0
              then extract_loop hist spp corr_value n (i + 1)
                     (string_symbols[i := Prompt_I (hist ! (i + spp))])
              else extract_loop hist spp corr_value n (i + 1)
                     (string_symbols[i := dneg (Prompt_I (hist ! (i + spp)))]))
      else Inr string_symbols)"
  by pat_completeness auto
termination
  by (relation "measure (\<lambda>(hist, spp, c, n, i, a). n - i)") auto

declare extract_loop.simps [simp del]

text \<open>Lines 140--145 of \<^verbatim>\<open>decode_string\<close>: the bit of one symbol.\<close>

definition bit_value :: "double \<Rightarrow> char" where
  "bit_value a = (if gt_zero a then CHR ''1'' else CHR ''0'')"

text \<open>Lines 139--151 of \<^verbatim>\<open>decode_string\<close>: symbols 24 to 311 of the array become bits.\<close>

function bits_loop :: "double list \<Rightarrow> nat \<Rightarrow> string \<Rightarrow> error + string" where
  "bits_loop frame_symbols ii data_bits =
     (if ii < 24 + 288 then
        (if \<not> ii < length frame_symbols then Inl Array_Bounds
         else bits_loop frame_symbols (ii + 1)
                (data_bits @ [bit_value (frame_symbols ! ii)]))
      else Inr data_bits)"
  by pat_completeness auto
termination
  by (relation "measure (\<lambda>(a, ii, d). (24 + 288) - ii)") auto

declare bits_loop.simps [simp del]

definition symbols_to_bits :: "double list \<Rightarrow> int \<Rightarrow> error + string" where
  "symbols_to_bits frame_symbols frame_length =
     (if \<not> frame_length \<ge> 24 + 288 then Inl Assertion_Failed
      else bits_loop frame_symbols 24 [])"

text \<open>
  Steps 4 and 5 of \<^verbatim>\<open>decode_string\<close>: publication and the satellite update. Each
  publication is recorded by its kind; the almanac one also by the slot number read
  after \<^verbatim>\<open>have_new_almanac\<close>. The result of \<^verbatim>\<open>what_block\<close> is discarded by the code.
\<close>

definition publish_new_data :: "'i collaborator \<Rightarrow> 'i decoder \<Rightarrow> 'i decoder" where
  "publish_new_data col s0 =
     (let (e, n1) = have_new_ephemeris col (d_nav s0);
          s1 = s0\<lparr>d_nav := n1,
                  telemetry_port := telemetry_port s0 @ (if e then [Ephemeris_msg] else [])\<rparr>;
          (u, n2) = have_new_utc_model col (d_nav s1);
          s2 = s1\<lparr>d_nav := n2,
                  telemetry_port := telemetry_port s1 @ (if u then [Utc_Model_msg] else [])\<rparr>;
          (a, n3) = have_new_almanac col (d_nav s2);
          s3 = s2\<lparr>d_nav := n3,
                  telemetry_port := telemetry_port s2 @
                    (if a then [Almanac_msg (i_alm_satellite_slot_number n3)] else [])\<rparr>
      in if flag_update_slot_number (d_nav s3)
         then s3\<lparr>d_satellite := update_PRN col (d_satellite s3) (SatType (d_nav s3)),
                 d_nav := (d_nav s3)\<lparr>flag_update_slot_number := False\<rparr>\<rparr>
         else s3)"

definition decode_string ::
  "'i collaborator \<Rightarrow> 'i decoder \<Rightarrow> double list \<Rightarrow> int \<Rightarrow> error + 'i decoder" where
  "decode_string col s frame_symbols frame_length =
     (case symbols_to_bits frame_symbols frame_length of
        Inl e \<Rightarrow> Inl e
      | Inr data_bits \<Rightarrow>
          Inr (publish_new_data col (s\<lparr>d_nav := string_decoder col (d_nav s) data_bits\<rparr>)))"

subsection \<open>Frame synchronisation\<close>

text \<open>Lines 335--357: the outcome of the CRC test after a decode.\<close>

definition crc_outcome :: "'i decoder \<Rightarrow> 'i decoder" where
  "crc_outcome s =
     (if flag_CRC_test (d_nav s) then
        (let s1 = s\<lparr>d_CRC_error_counter := 0,
                    d_flag_preamble := True,
                    d_preamble_index := d_sample_counter s\<rparr>
         in if \<not> d_flag_frame_sync s1 then s1\<lparr>d_flag_frame_sync := True\<rparr> else s1)
      else
        (let s1 = s\<lparr>d_CRC_error_counter := d_CRC_error_counter s + 1,
                    d_preamble_index := d_sample_counter s\<rparr>
         in if d_CRC_error_counter s1 > CRC_ERROR_LIMIT
            then s1\<lparr>d_flag_frame_sync := False, d_stat := 0\<rparr>
            else s1))"

text \<open>Lines 315--334: a new string has been received; its symbols are fetched and decoded.\<close>

definition fetch_and_decode ::
  "constants \<Rightarrow> 'i collaborator \<Rightarrow> 'i decoder \<Rightarrow> int \<Rightarrow> error + 'i decoder" where
  "fetch_and_decode cfg col s corr_value =
     (let string_length = int (BEIDOU_CNAV2_STRING_SYMBOLS cfg) - int (d_symbols_per_preamble s)
      in case extract_loop (d_symbol_history s) (d_symbols_per_preamble s) corr_value
                (nat string_length) 0 (replicate (BEIDOU_CNAV2_DATA_SYMBOLS cfg) (Finite 0)) of
           Inl e \<Rightarrow> Inl e
         | Inr string_symbols \<Rightarrow> decode_string col s string_symbols string_length)"

text \<open>Lines 315--357: the decode followed by the CRC test.\<close>

definition decode_frame ::
  "constants \<Rightarrow> 'i collaborator \<Rightarrow> 'i decoder \<Rightarrow> int \<Rightarrow> error + 'i decoder" where
  "decode_frame cfg col s corr_value =
     (case fetch_and_decode cfg col s corr_value of
        Inl e \<Rightarrow> Inl e
      | Inr s1 \<Rightarrow> Inr (crc_outcome s1))"

text \<open>Lines 273--359: the three states of the synchroniser.\<close>

definition frame_sync ::
  "constants \<Rightarrow> 'i collaborator \<Rightarrow> 'i decoder \<Rightarrow> int \<Rightarrow> error + 'i decoder" where
  "frame_sync cfg col s corr_value =
     (if d_stat s = 0 then
        (if \<bar>corr_value\<bar> \<ge> int (d_symbols_per_preamble s) then
           (case deque_at (d_symbol_history s) 0 of
              Inl e \<Rightarrow> Inl e
            | Inr oldest \<Rightarrow>
                Inr (s\<lparr>d_preamble_index := d_sample_counter s,
                        d_stat := 1,
                        d_preamble_time_samples := Tracking_sample_counter oldest\<rparr>))
         else Inr s)
      else if d_stat s = 1 then
        (if \<bar>corr_value\<bar> \<ge> int (d_symbols_per_preamble s) then
           (let preamble_diff =
                  narrow_int32 (int (d_sample_counter s) - int (d_preamble_index s))
            in case deque_at (d_symbol_history s) 0 of
                 Inl e \<Rightarrow> Inl e
               | Inr oldest \<Rightarrow>
                   (let s1 = s\<lparr>d_preamble_time_samples := Tracking_sample_counter oldest\<rparr>
                    in if \<bar>preamble_diff - int (BEIDOU_CNAV2_PREAMBLE_PERIOD_SYMBOLS cfg)\<bar> = 0
                       then Inr (s1\<lparr>d_preamble_index := d_sample_counter s1, d_stat := 2\<rparr>)
                       else if preamble_diff > int (BEIDOU_CNAV2_PREAMBLE_PERIOD_SYMBOLS cfg)
                       then Inr (s1\<lparr>d_stat := 0\<rparr>)
                       else Inr s1))
         else Inr s)
      else if d_stat s = 2 then
        (if d_sample_counter s = d_preamble_index s + BEIDOU_CNAV2_STRING_SYMBOLS cfg
         then decode_frame cfg col s corr_value
         else Inr s)
      else Inr s)"

subsection \<open>One call of general_work\<close>

text \<open>Lines 246--253: the input item is queued and counted.\<close>

definition push_symbol :: "'i decoder \<Rightarrow> Gnss_Synchro \<Rightarrow> 'i decoder" where
  "push_symbol s current_symbol =
     s\<lparr>d_symbol_history := d_symbol_history s @ [current_symbol],
       d_sample_counter := d_sample_counter s + 1,
       d_flag_preamble := False\<rparr>"

text \<open>Lines 246--359: everything up to and including the frame synchronisation.\<close>

definition sync_phase ::
  "constants \<Rightarrow> 'i collaborator \<Rightarrow> 'i decoder \<Rightarrow> Gnss_Synchro \<Rightarrow> error + 'i decoder" where
  "sync_phase cfg col s current_symbol =
     (let s1 = push_symbol s current_symbol
      in case preamble_correlation cfg (d_preambles_symbols s1) (d_symbols_per_preamble s1)
                (d_symbol_history s1) of
           Inl e \<Rightarrow> Inl e
         | Inr corr_value \<Rightarrow> frame_sync cfg col s1 corr_value)"

text \<open>
  Lines 363--372: the time of week of the current symbol. The literal \<^verbatim>\<open>1000\<close> is
  converted to \<^verbatim>\<open>double\<close>, which is exact; the subtraction, the multiplication, the
  division and the addition round. In binary64, for instance, a week second of 65 and a
  preamble duration of 0.12 give the product 64879.99999999999 and the time of week
  64.879, where the real numbers would give 64.88.
\<close>

definition update_TOW :: "double_arith \<Rightarrow> constants \<Rightarrow> 'i decoder \<Rightarrow> 'i decoder" where
  "update_TOW fp cfg s =
     (if d_flag_preamble s \<and> flag_TOW_new (d_nav s) then
        s\<lparr>d_TOW_at_current_symbol :=
            ddiv fp
              (dfloor (dmul fp (dsub fp (SOW (d_nav s)) (BEIDOU_CNAV2_PREAMBLE_DURATION_S cfg))
                               (Finite 1000)))
              (Finite 1000),
          d_nav := (d_nav s)\<lparr>flag_TOW_new := False\<rparr>\<rparr>
      else
        s\<lparr>d_TOW_at_current_symbol :=
            dadd fp (d_TOW_at_current_symbol s) (BEIDOU_B2a_CODE_PERIOD cfg)\<rparr>)"

text \<open>Lines 381--392: the output item.\<close>

definition annotate :: "double_arith \<Rightarrow> 'i decoder \<Rightarrow> Gnss_Synchro \<Rightarrow> Gnss_Synchro" where
  "annotate fp s current_symbol =
     current_symbol\<lparr>
       Flag_valid_word := (if d_flag_frame_sync s \<and> flag_TOW_set (d_nav s) then True else False),
       PRN := d_satellite s,
       TOW_at_current_symbol_ms := dsub fp (d_TOW_at_current_symbol s) (delta_t s)\<rparr>"

text \<open>
  Lines 394--412: the dump record. \<open>writes_ok\<close> is the number of writes that succeed
  before the stream throws; the exception is caught and only logged.
\<close>

definition dump_record :: "'i decoder \<Rightarrow> Gnss_Synchro \<Rightarrow> nat \<Rightarrow> 'i decoder" where
  "dump_record s current_symbol writes_ok =
     (if d_dump s then
        s\<lparr>d_dump_file := d_dump_file s @
            take writes_ok [Dump_double (d_TOW_at_current_symbol s),
                            Dump_ulong (Tracking_sample_counter current_symbol),
                            Dump_double (Finite 0)]\<rparr>
      else s)"

text \<open>Lines 414--418: the oldest symbol leaves the history.\<close>

definition pop_used :: "constants \<Rightarrow> 'i decoder \<Rightarrow> 'i decoder" where
  "pop_used cfg s =
     (if length (d_symbol_history s) > BEIDOU_CNAV2_STRING_SYMBOLS cfg
      then s\<lparr>d_symbol_history := tl (d_symbol_history s)\<rparr>
      else s)"

definition general_work ::
  "double_arith \<Rightarrow> constants \<Rightarrow> 'i collaborator \<Rightarrow> 'i decoder \<Rightarrow> Gnss_Synchro \<times> nat \<Rightarrow>
     error + ('i decoder \<times> work_result)" where
  "general_work fp cfg col s inp =
     (case sync_phase cfg col s (fst inp) of
        Inl e \<Rightarrow> Inl e
      | Inr s1 \<Rightarrow>
          (let s2 = update_TOW fp cfg s1;
               current_symbol = annotate fp s2 (fst inp);
               s3 = dump_record s2 current_symbol (snd inp);
               s4 = pop_used cfg s3
           in Inr (s4, \<lparr>consumed = 1, produced = [current_symbol], returned = 1\<rparr>)))"

text \<open>
  The scheduler calls \<^verbatim>\<open>general_work\<close> once per input item; an error ends the run.
  The results of the calls are collected in order.
\<close>

fun run ::
  "double_arith \<Rightarrow> constants \<Rightarrow> 'i collaborator \<Rightarrow> 'i decoder \<Rightarrow>
     (Gnss_Synchro \<times> nat) list \<Rightarrow> error + ('i decoder \<times> work_result list)" where
  "run fp cfg col s [] = Inr (s, [])"
| "run fp cfg col s (inp # inps) =
     (case general_work fp cfg col s inp of
        Inl e \<Rightarrow> Inl e
      | Inr (s1, r) \<Rightarrow>
          (case run fp cfg col s1 inps of
             Inl e \<Rightarrow> Inl e
           | Inr (s2, rs) \<Rightarrow> Inr (s2, r # rs)))"

subsection \<open>Notions used in the statements\<close>

text \<open>The value of \<^verbatim>\<open>corr_value\<close> that a call on input \<open>x\<close> computes in state \<open>s\<close>.\<close>

definition corr_value_of :: "constants \<Rightarrow> 'i decoder \<Rightarrow> Gnss_Synchro \<Rightarrow> error + int" where
  "corr_value_of cfg s x =
     preamble_correlation cfg (d_preambles_symbols s) (d_symbols_per_preamble s)
       (d_symbol_history s @ [x])"

text \<open>The test of lines 275 and 287 on that value: a full-strength correlation.\<close>

definition full_strength :: "constants \<Rightarrow> 'i decoder \<Rightarrow> Gnss_Synchro \<Rightarrow> bool" where
  "full_strength cfg s x =
     (case corr_value_of cfg s x of
        Inl e \<Rightarrow> False
      | Inr corr_value \<Rightarrow> \<bar>corr_value\<bar> \<ge> int (d_symbols_per_preamble s))"

text \<open>The test of lines 310 and 313, seen from the state before the call.\<close>

definition decode_due :: "constants \<Rightarrow> 'i decoder \<Rightarrow> bool" where
  "decode_due cfg s =
     (d_stat s = 2 \<and>
      d_sample_counter s + 1 = d_preamble_index s + BEIDOU_CNAV2_STRING_SYMBOLS cfg)"

text \<open>
  The value of \<^verbatim>\<open>d_nav.flag_CRC_test\<close> read at line 335 when the call on input \<open>x\<close>
  decodes a frame.
\<close>

definition crc_reported ::
  "constants \<Rightarrow> 'i collaborator \<Rightarrow> 'i decoder \<Rightarrow> Gnss_Synchro \<Rightarrow> bool option" where
  "crc_reported cfg col s x =
     (case corr_value_of cfg s x of
        Inl e \<Rightarrow> None
      | Inr corr_value \<Rightarrow>
          (case fetch_and_decode cfg col (push_symbol s x) corr_value of
             Inl e \<Rightarrow> None
           | Inr s1 \<Rightarrow> Some (flag_CRC_test (d_nav s1))))"

text \<open>
  The values of \<^verbatim>\<open>d_nav.flag_CRC_test\<close> that the calls of a run read at line 335, one for
  each frame decode of the run, in order.
\<close>

fun crc_results ::
  "double_arith \<Rightarrow> constants \<Rightarrow> 'i collaborator \<Rightarrow> 'i decoder \<Rightarrow>
     (Gnss_Synchro \<times> nat) list \<Rightarrow> bool list" where
  "crc_results fp cfg col s [] = []"
| "crc_results fp cfg col s (inp # inps) =
     (case general_work fp cfg col s inp of
        Inl e \<Rightarrow> []
      | Inr (s1, r) \<Rightarrow>
          (if decode_due cfg s
           then (case crc_reported cfg col s (fst inp) of None \<Rightarrow> [] | Some b \<Rightarrow> [b])
           else [])
          @ crc_results fp cfg col s1 inps)"

text \<open>
  What the code needs of the constants of the absent header: the constructor fills
  exactly the template buffer, a string leaves at least \<open>24 + 288\<close> symbols after the
  preamble, and these fit the array \<^verbatim>\<open>string_symbols\<close>.
\<close>

definition constants_ok :: "constants \<Rightarrow> bool" where
  "constants_ok cfg =
     (BEIDOU_CNAV2_PREAMBLE_LENGTH_BITS cfg * BEIDOU_CNAV2_TELEMETRY_SYMBOLS_PER_PREAMBLE_BIT cfg
        = BEIDOU_CNAV2_PREAMBLE_LENGTH_SYMBOLS cfg \<and>
      BEIDOU_CNAV2_PREAMBLE_LENGTH_SYMBOLS cfg + (24 + 288) \<le> BEIDOU_CNAV2_STRING_SYMBOLS cfg \<and>
      BEIDOU_CNAV2_STRING_SYMBOLS cfg - BEIDOU_CNAV2_PREAMBLE_LENGTH_SYMBOLS cfg
        \<le> BEIDOU_CNAV2_DATA_SYMBOLS cfg)"

text \<open>
  What holds of the decoder object between calls: the template covers the preamble,
  the history holds the last symbols up to one string, and a lock was taken at a
  counted sample. The constructor establishes it and every call keeps it
  (\<open>make_decoder_inv\<close>, \<open>general_work_total\<close>, \<open>reachable_decoder_inv\<close> below).
\<close>

definition decoder_inv :: "constants \<Rightarrow> 'i decoder \<Rightarrow> bool" where
  "decoder_inv cfg s =
     (d_symbols_per_preamble s = BEIDOU_CNAV2_PREAMBLE_LENGTH_SYMBOLS cfg \<and>
      d_symbols_per_preamble s \<le> length (d_preambles_symbols s) \<and>
      length (d_symbol_history s) = min (d_sample_counter s) (BEIDOU_CNAV2_STRING_SYMBOLS cfg) \<and>
      (d_stat s \<noteq> 2 \<or> 1 \<le> d_preamble_index s))"

text \<open>What lines 361--418 make of the state that the frame synchronisation leaves.\<close>

definition after_sync ::
  "double_arith \<Rightarrow> constants \<Rightarrow> 'i decoder \<Rightarrow> Gnss_Synchro \<times> nat \<Rightarrow> 'i decoder" where
  "after_sync fp cfg m inp =
     pop_used cfg
       (dump_record (update_TOW fp cfg m) (annotate fp (update_TOW fp cfg m) (fst inp)) (snd inp))"

text \<open>
  One call against its input: one item consumed, one item produced, and the item produced
  is the copy of the input item (amplitude and tracking time stamp unchanged).
\<close>

definition one_in_one_out :: "Gnss_Synchro \<times> nat \<Rightarrow> work_result \<Rightarrow> bool" where
  "one_in_one_out inp r =
     (consumed r = 1 \<and> returned r = 1 \<and>
      (case produced r of
         [y] \<Rightarrow> Prompt_I y = Prompt_I (fst inp) \<and>
                Tracking_sample_counter y = Tracking_sample_counter (fst inp)
       | _ \<Rightarrow> False))"

text \<open>The same symbol received with the opposite polarity.\<close>

definition negate_symbol :: "Gnss_Synchro \<Rightarrow> Gnss_Synchro" where
  "negate_symbol x = x\<lparr>Prompt_I := dneg (Prompt_I x)\<rparr>"

text \<open>Lines 323--330: the amplitude stored for a data symbol.\<close>

definition resolve_polarity :: "int \<Rightarrow> Gnss_Synchro \<Rightarrow> double" where
  "resolve_polarity corr_value y =
     (if corr_value > 0 then Prompt_I y else dneg (Prompt_I y))"

text \<open>
  Following the specification's words, not the source: every symbol of the array, up to
  the length parameter, becomes one bit, in order. It is compared with \<open>symbols_to_bits\<close>
  below.
\<close>

definition spec_symbols_to_bits :: "double list \<Rightarrow> int \<Rightarrow> string" where
  "spec_symbols_to_bits frame_symbols frame_length =
     map bit_value (take (nat frame_length) frame_symbols)"

subsection \<open>Test data\<close>

text \<open>
  Concrete symbols, collaborators, constants and decoder objects for the examples.
  The arithmetic of the examples is exact on finite values; the examples only use
  values on which the arithmetic of \<^verbatim>\<open>double\<close> is exact as well.
\<close>

definition exact_op :: "(real \<Rightarrow> real \<Rightarrow> real) \<Rightarrow> double \<Rightarrow> double \<Rightarrow> double" where
  "exact_op f x y = (case (x, y) of (Finite a, Finite b) \<Rightarrow> Finite (f a b) | _ \<Rightarrow> NaN)"

definition exact_arith :: double_arith where
  "exact_arith =
     \<lparr>dadd = exact_op (+), dsub = exact_op (-), dmul = exact_op (*),
      ddiv = (\<lambda>x y. if y = Finite 0 then NaN else exact_op (/) x y)\<rparr>"

definition test_symbol :: "real \<Rightarrow> nat \<Rightarrow> Gnss_Synchro" where
  "test_symbol a t =
     \<lparr>Prompt_I = Finite a, Tracking_sample_counter = t, PRN = 0, Flag_valid_word = False,
      TOW_at_current_symbol_ms = Finite 0\<rparr>"

definition test_nav :: "unit nav" where
  "test_nav =
     \<lparr>flag_CRC_test = False, flag_TOW_new = False, flag_TOW_set = False,
      flag_update_slot_number = False, i_alm_satellite_slot_number = 0, SOW = Finite 0,
      SatType = 0, internal = ()\<rparr>"

definition test_collaborator :: "bool \<Rightarrow> bool \<Rightarrow> unit collaborator" where
  "test_collaborator crc tow =
     \<lparr>string_decoder =
        (\<lambda>n bits. n\<lparr>flag_CRC_test := crc, flag_TOW_new := tow, SOW := Finite 18.5\<rparr>),
      have_new_ephemeris = (\<lambda>n. (False, n)),
      have_new_utc_model = (\<lambda>n. (False, n)),
      have_new_almanac = (\<lambda>n. (False, n)),
      update_PRN = (\<lambda>prn t. t)\<rparr>"

text \<open>
  A collaborator whose CRC test depends on the bits it is given: the test passes exactly
  when the frame holds a \<open>0\<close> bit.
\<close>

definition bit_collaborator :: "unit collaborator" where
  "bit_collaborator =
     \<lparr>string_decoder = (\<lambda>n bits. n\<lparr>flag_CRC_test := (CHR ''0'' \<in> set bits)\<rparr>),
      have_new_ephemeris = (\<lambda>n. (False, n)),
      have_new_utc_model = (\<lambda>n. (False, n)),
      have_new_almanac = (\<lambda>n. (False, n)),
      update_PRN = (\<lambda>prn t. t)\<rparr>"

definition small_constants :: constants where
  "small_constants =
     \<lparr>BEIDOU_CNAV2_PREAMBLE = [1],
      BEIDOU_CNAV2_PREAMBLE_LENGTH_BITS = 1,
      BEIDOU_CNAV2_PREAMBLE_LENGTH_SYMBOLS = 1,
      BEIDOU_CNAV2_TELEMETRY_SYMBOLS_PER_PREAMBLE_BIT = 1,
      BEIDOU_CNAV2_STRING_SYMBOLS = 2,
      BEIDOU_CNAV2_DATA_SYMBOLS = 1,
      BEIDOU_CNAV2_PREAMBLE_PERIOD_SYMBOLS = 2,
      BEIDOU_CNAV2_PREAMBLE_DURATION_S = Finite 0,
      BEIDOU_B2a_CODE_PERIOD = Finite 1\<rparr>"

definition test_decoder ::
  "nat \<Rightarrow> nat \<Rightarrow> nat \<Rightarrow> nat \<Rightarrow> Gnss_Synchro list \<Rightarrow> unit decoder" where
  "test_decoder stat counter index errors hist =
     \<lparr>d_dump = False, d_satellite = 0, d_symbols_per_preamble = 1,
      d_preambles_symbols = [1], d_sample_counter = counter, d_stat = stat,
      d_preamble_index = index, d_flag_frame_sync = False, d_flag_parity = False,
      d_TOW_at_current_symbol = Finite 0, delta_t = Finite 0, d_CRC_error_counter = errors,
      d_flag_preamble = False, d_channel = 0, d_preamble_time_samples = 0,
      d_symbol_history = hist, d_nav = test_nav, telemetry_port = [], d_dump_file = []\<rparr>"

text \<open>Constants that satisfy \<open>constants_ok\<close>, with the shortest string possible.\<close>

definition string_constants :: constants where
  "string_constants =
     \<lparr>BEIDOU_CNAV2_PREAMBLE = [1],
      BEIDOU_CNAV2_PREAMBLE_LENGTH_BITS = 1,
      BEIDOU_CNAV2_PREAMBLE_LENGTH_SYMBOLS = 1,
      BEIDOU_CNAV2_TELEMETRY_SYMBOLS_PER_PREAMBLE_BIT = 1,
      BEIDOU_CNAV2_STRING_SYMBOLS = 313,
      BEIDOU_CNAV2_DATA_SYMBOLS = 312,
      BEIDOU_CNAV2_PREAMBLE_PERIOD_SYMBOLS = 313,
      BEIDOU_CNAV2_PREAMBLE_DURATION_S = Finite 0.125,
      BEIDOU_B2a_CODE_PERIOD = Finite 0.5\<rparr>"

text \<open>A decoder in LOCKED that took its preamble at sample 315, frame sync asserted.\<close>

definition locked_decoder :: "nat \<Rightarrow> nat \<Rightarrow> unit decoder" where
  "locked_decoder counter errors =
     (test_decoder 2 counter 315 errors (replicate 313 (test_symbol 1 0)))
       \<lparr>d_flag_frame_sync := True\<rparr>"



section \<open>Properties\<close>

subsection \<open>Field bookkeeping\<close>

lemma push_symbol_simps [simp]:
  "d_symbol_history (push_symbol s x) = d_symbol_history s @ [x]"
  "d_sample_counter (push_symbol s x) = d_sample_counter s + 1"
  "d_flag_preamble (push_symbol s x) = False"
  "d_stat (push_symbol s x) = d_stat s"
  "d_preamble_index (push_symbol s x) = d_preamble_index s"
  "d_CRC_error_counter (push_symbol s x) = d_CRC_error_counter s"
  "d_flag_frame_sync (push_symbol s x) = d_flag_frame_sync s"
  "d_symbols_per_preamble (push_symbol s x) = d_symbols_per_preamble s"
  "d_preambles_symbols (push_symbol s x) = d_preambles_symbols s"
  "d_TOW_at_current_symbol (push_symbol s x) = d_TOW_at_current_symbol s"
  "d_nav (push_symbol s x) = d_nav s"
  "d_preamble_time_samples (push_symbol s x) = d_preamble_time_samples s"
  by (simp_all add: push_symbol_def)

lemma after_sync_simps [simp]:
  "d_stat (after_sync fp cfg m inp) = d_stat m"
  "d_sample_counter (after_sync fp cfg m inp) = d_sample_counter m"
  "d_preamble_index (after_sync fp cfg m inp) = d_preamble_index m"
  "d_CRC_error_counter (after_sync fp cfg m inp) = d_CRC_error_counter m"
  "d_flag_frame_sync (after_sync fp cfg m inp) = d_flag_frame_sync m"
  "d_flag_preamble (after_sync fp cfg m inp) = d_flag_preamble m"
  "d_symbols_per_preamble (after_sync fp cfg m inp) = d_symbols_per_preamble m"
  "d_preambles_symbols (after_sync fp cfg m inp) = d_preambles_symbols m"
  "d_preamble_time_samples (after_sync fp cfg m inp) = d_preamble_time_samples m"
  by (simp_all add: after_sync_def pop_used_def dump_record_def update_TOW_def)

lemma after_sync_history:
  "d_symbol_history (after_sync fp cfg m inp) =
     (if length (d_symbol_history m) > BEIDOU_CNAV2_STRING_SYMBOLS cfg
      then tl (d_symbol_history m) else d_symbol_history m)"
  by (simp add: after_sync_def pop_used_def dump_record_def update_TOW_def)

lemma general_work_sync:
  "sync_phase cfg col s (fst inp) = Inr m \<Longrightarrow>
   general_work fp cfg col s inp =
     Inr (after_sync fp cfg m inp,
          \<lparr>consumed = 1, produced = [annotate fp (update_TOW fp cfg m) (fst inp)], returned = 1\<rparr>)"
  by (simp add: general_work_def after_sync_def Let_def)

lemma general_work_InrD:
  "general_work fp cfg col s inp = Inr (s', r) \<Longrightarrow>
   \<exists>m. sync_phase cfg col s (fst inp) = Inr m \<and> s' = after_sync fp cfg m inp \<and>
       r = \<lparr>consumed = 1, produced = [annotate fp (update_TOW fp cfg m) (fst inp)], returned = 1\<rparr>"
  by (auto simp: general_work_def after_sync_def Let_def split: sum.splits)

lemma sync_phase_corr:
  "sync_phase cfg col s x =
     (case corr_value_of cfg s x of
        Inl e \<Rightarrow> Inl e
      | Inr c \<Rightarrow> frame_sync cfg col (push_symbol s x) c)"
  by (simp add: sync_phase_def corr_value_of_def Let_def)

lemma corr_loop_total:
  "n \<le> length hist \<Longrightarrow> n \<le> length tmpl \<Longrightarrow> \<exists>c. corr_loop tmpl hist n i acc = Inr c"
proof (induction tmpl hist n i acc rule: corr_loop.induct)
  case (1 tmpl hist n i corr_value)
  show ?case
  proof (cases "i < n")
    case True
    with 1 show ?thesis by (subst corr_loop.simps) auto
  next
    case False
    then show ?thesis by (subst corr_loop.simps) simp
  qed
qed

lemma extract_loop_total:
  "n + spp \<le> length hist \<Longrightarrow> n \<le> length arr \<Longrightarrow>
   \<exists>arr'. extract_loop hist spp c n i arr = Inr arr' \<and> length arr' = length arr"
proof (induction hist spp c n i arr rule: extract_loop.induct)
  case (1 hist spp c n i arr)
  show ?case
  proof (cases "i < n")
    case True
    with 1 show ?thesis by (subst extract_loop.simps) auto
  next
    case False
    then show ?thesis by (subst extract_loop.simps) simp
  qed
qed

lemma bits_loop_total:
  "24 + 288 \<le> length arr \<Longrightarrow> \<exists>bits. bits_loop arr ii acc = Inr bits"
proof (induction arr ii acc rule: bits_loop.induct)
  case (1 arr ii acc)
  show ?case
  proof (cases "ii < 24 + 288")
    case True
    with 1 show ?thesis by (subst bits_loop.simps) auto
  next
    case False
    then show ?thesis by (subst bits_loop.simps) simp
  qed
qed

lemma publish_new_data_simps [simp]:
  "d_stat (publish_new_data col s) = d_stat s"
  "d_sample_counter (publish_new_data col s) = d_sample_counter s"
  "d_preamble_index (publish_new_data col s) = d_preamble_index s"
  "d_CRC_error_counter (publish_new_data col s) = d_CRC_error_counter s"
  "d_flag_frame_sync (publish_new_data col s) = d_flag_frame_sync s"
  "d_flag_preamble (publish_new_data col s) = d_flag_preamble s"
  "d_symbols_per_preamble (publish_new_data col s) = d_symbols_per_preamble s"
  "d_preambles_symbols (publish_new_data col s) = d_preambles_symbols s"
  "d_symbol_history (publish_new_data col s) = d_symbol_history s"
  "d_TOW_at_current_symbol (publish_new_data col s) = d_TOW_at_current_symbol s"
  "d_preamble_time_samples (publish_new_data col s) = d_preamble_time_samples s"
  by (simp_all add: publish_new_data_def Let_def split: prod.splits)

lemma crc_outcome_simps [simp]:
  "d_sample_counter (crc_outcome s) = d_sample_counter s"
  "d_preamble_index (crc_outcome s) = d_sample_counter s"
  "d_symbols_per_preamble (crc_outcome s) = d_symbols_per_preamble s"
  "d_preambles_symbols (crc_outcome s) = d_preambles_symbols s"
  "d_symbol_history (crc_outcome s) = d_symbol_history s"
  "d_TOW_at_current_symbol (crc_outcome s) = d_TOW_at_current_symbol s"
  "d_nav (crc_outcome s) = d_nav s"
  "d_preamble_time_samples (crc_outcome s) = d_preamble_time_samples s"
  by (simp_all add: crc_outcome_def Let_def)

lemma crc_outcome_pass:
  "flag_CRC_test (d_nav s) \<Longrightarrow>
   d_CRC_error_counter (crc_outcome s) = 0 \<and> d_flag_preamble (crc_outcome s) \<and>
   d_flag_frame_sync (crc_outcome s) \<and> d_stat (crc_outcome s) = d_stat s"
  by (simp add: crc_outcome_def Let_def)

lemma crc_outcome_fail:
  "\<not> flag_CRC_test (d_nav s) \<Longrightarrow>
   d_CRC_error_counter (crc_outcome s) = d_CRC_error_counter s + 1 \<and>
   d_flag_preamble (crc_outcome s) = d_flag_preamble s \<and>
   d_flag_frame_sync (crc_outcome s) =
     (if d_CRC_error_counter s + 1 > CRC_ERROR_LIMIT then False else d_flag_frame_sync s) \<and>
   d_stat (crc_outcome s) =
     (if d_CRC_error_counter s + 1 > CRC_ERROR_LIMIT then 0 else d_stat s)"
  by (simp add: crc_outcome_def Let_def)

lemma decode_string_InrD:
  "decode_string col s arr fl = Inr s1 \<Longrightarrow>
   d_stat s1 = d_stat s \<and> d_sample_counter s1 = d_sample_counter s \<and>
   d_preamble_index s1 = d_preamble_index s \<and>
   d_CRC_error_counter s1 = d_CRC_error_counter s \<and>
   d_flag_frame_sync s1 = d_flag_frame_sync s \<and>
   d_flag_preamble s1 = d_flag_preamble s \<and>
   d_symbols_per_preamble s1 = d_symbols_per_preamble s \<and>
   d_preambles_symbols s1 = d_preambles_symbols s \<and>
   d_symbol_history s1 = d_symbol_history s \<and>
   d_TOW_at_current_symbol s1 = d_TOW_at_current_symbol s \<and>
   d_preamble_time_samples s1 = d_preamble_time_samples s"
  by (auto simp: decode_string_def split: sum.splits)

lemma fetch_and_decode_InrD:
  "fetch_and_decode cfg col s c = Inr s1 \<Longrightarrow>
   d_stat s1 = d_stat s \<and> d_sample_counter s1 = d_sample_counter s \<and>
   d_preamble_index s1 = d_preamble_index s \<and>
   d_CRC_error_counter s1 = d_CRC_error_counter s \<and>
   d_flag_frame_sync s1 = d_flag_frame_sync s \<and>
   d_flag_preamble s1 = d_flag_preamble s \<and>
   d_symbols_per_preamble s1 = d_symbols_per_preamble s \<and>
   d_preambles_symbols s1 = d_preambles_symbols s \<and>
   d_symbol_history s1 = d_symbol_history s \<and>
   d_TOW_at_current_symbol s1 = d_TOW_at_current_symbol s \<and>
   d_preamble_time_samples s1 = d_preamble_time_samples s"
  unfolding fetch_and_decode_def Let_def
  by (auto split: sum.splits dest!: decode_string_InrD)

lemma fetch_and_decode_total:
  assumes "BEIDOU_CNAV2_STRING_SYMBOLS cfg < length (d_symbol_history s)"
    and "d_symbols_per_preamble s + (24 + 288) \<le> BEIDOU_CNAV2_STRING_SYMBOLS cfg"
    and "BEIDOU_CNAV2_STRING_SYMBOLS cfg - d_symbols_per_preamble s \<le> BEIDOU_CNAV2_DATA_SYMBOLS cfg"
  shows "\<exists>s1. fetch_and_decode cfg col s c = Inr s1"
proof -
  let ?n = "nat (int (BEIDOU_CNAV2_STRING_SYMBOLS cfg) - int (d_symbols_per_preamble s))"
  have n: "?n = BEIDOU_CNAV2_STRING_SYMBOLS cfg - d_symbols_per_preamble s"
    using assms(2) by simp
  obtain arr where arr: "extract_loop (d_symbol_history s) (d_symbols_per_preamble s) c ?n 0
      (replicate (BEIDOU_CNAV2_DATA_SYMBOLS cfg) (Finite 0)) = Inr arr"
    and len: "length arr = BEIDOU_CNAV2_DATA_SYMBOLS cfg"
    using extract_loop_total [of ?n "d_symbols_per_preamble s" "d_symbol_history s"
        "replicate (BEIDOU_CNAV2_DATA_SYMBOLS cfg) (Finite 0)" c 0] assms n
    by auto
  have "24 + 288 \<le> length arr" using len assms(2,3) by simp
  then obtain bits where "bits_loop arr 24 [] = Inr bits"
    using bits_loop_total by blast
  moreover have "int (BEIDOU_CNAV2_STRING_SYMBOLS cfg) - int (d_symbols_per_preamble s) \<ge> 24 + 288"
    using assms(2) by simp
  ultimately show ?thesis
    using arr by (simp add: fetch_and_decode_def decode_string_def symbols_to_bits_def Let_def)
qed

lemma frame_sync_stat0:
  "d_stat s = 0 \<Longrightarrow> d_symbol_history s \<noteq> [] \<Longrightarrow>
   frame_sync cfg col s c =
     Inr (if \<bar>c\<bar> \<ge> int (d_symbols_per_preamble s)
          then s\<lparr>d_preamble_index := d_sample_counter s, d_stat := 1,
                 d_preamble_time_samples := Tracking_sample_counter (hd (d_symbol_history s))\<rparr>
          else s)"
  by (cases "d_symbol_history s") (simp_all add: frame_sync_def deque_at_def)

lemma frame_sync_stat1:
  "d_stat s = 1 \<Longrightarrow> d_symbol_history s \<noteq> [] \<Longrightarrow>
   frame_sync cfg col s c =
     Inr (if \<bar>c\<bar> \<ge> int (d_symbols_per_preamble s)
          then (if narrow_int32 (int (d_sample_counter s) - int (d_preamble_index s))
                     = int (BEIDOU_CNAV2_PREAMBLE_PERIOD_SYMBOLS cfg)
                then s\<lparr>d_preamble_time_samples := Tracking_sample_counter (hd (d_symbol_history s)),
                       d_preamble_index := d_sample_counter s, d_stat := 2\<rparr>
                else if narrow_int32 (int (d_sample_counter s) - int (d_preamble_index s))
                     > int (BEIDOU_CNAV2_PREAMBLE_PERIOD_SYMBOLS cfg)
                then s\<lparr>d_preamble_time_samples := Tracking_sample_counter (hd (d_symbol_history s)),
                       d_stat := 0\<rparr>
                else s\<lparr>d_preamble_time_samples := Tracking_sample_counter (hd (d_symbol_history s))\<rparr>)
          else s)"
  by (cases "d_symbol_history s") (simp_all add: frame_sync_def deque_at_def Let_def)

lemma frame_sync_stat2:
  "d_stat s = 2 \<Longrightarrow>
   frame_sync cfg col s c =
     (if d_sample_counter s = d_preamble_index s + BEIDOU_CNAV2_STRING_SYMBOLS cfg
      then decode_frame cfg col s c else Inr s)"
  by (simp add: frame_sync_def)

lemma frame_sync_other:
  "d_stat s > 2 \<Longrightarrow> frame_sync cfg col s c = Inr s"
  by (simp add: frame_sync_def)

subsection \<open>One call: totality and the invariant\<close>

lemma corr_value_of_total:
  assumes "decoder_inv cfg s"
    and "BEIDOU_CNAV2_PREAMBLE_LENGTH_SYMBOLS cfg \<le> BEIDOU_CNAV2_STRING_SYMBOLS cfg"
  shows "\<exists>c. corr_value_of cfg s x = Inr c"
proof (cases "length (d_symbol_history s @ [x]) > BEIDOU_CNAV2_STRING_SYMBOLS cfg")
  case True
  with assms have "d_symbols_per_preamble s \<le> length (d_symbol_history s @ [x])"
    and "d_symbols_per_preamble s \<le> length (d_preambles_symbols s)"
    by (auto simp: decoder_inv_def)
  then obtain c where "corr_loop (d_preambles_symbols s) (d_symbol_history s @ [x])
      (d_symbols_per_preamble s) 0 0 = Inr c"
    using corr_loop_total by blast
  with True show ?thesis by (simp add: corr_value_of_def preamble_correlation_def)
next
  case False
  then show ?thesis by (simp add: corr_value_of_def preamble_correlation_def)
qed

lemma sync_phase_stat0:
  "d_stat s = 0 \<Longrightarrow> corr_value_of cfg s x = Inr c \<Longrightarrow>
   sync_phase cfg col s x =
     Inr (if \<bar>c\<bar> \<ge> int (d_symbols_per_preamble s)
          then (push_symbol s x)\<lparr>d_preamble_index := d_sample_counter s + 1, d_stat := 1,
                 d_preamble_time_samples := Tracking_sample_counter (hd (d_symbol_history s @ [x]))\<rparr>
          else push_symbol s x)"
  by (simp add: sync_phase_corr frame_sync_stat0)

lemma sync_phase_stat1:
  "d_stat s = 1 \<Longrightarrow> corr_value_of cfg s x = Inr c \<Longrightarrow>
   sync_phase cfg col s x =
     Inr (if \<bar>c\<bar> \<ge> int (d_symbols_per_preamble s)
          then (if narrow_int32 (int (d_sample_counter s + 1) - int (d_preamble_index s))
                     = int (BEIDOU_CNAV2_PREAMBLE_PERIOD_SYMBOLS cfg)
                then (push_symbol s x)\<lparr>d_preamble_time_samples :=
                         Tracking_sample_counter (hd (d_symbol_history s @ [x])),
                       d_preamble_index := d_sample_counter s + 1, d_stat := 2\<rparr>
                else if narrow_int32 (int (d_sample_counter s + 1) - int (d_preamble_index s))
                     > int (BEIDOU_CNAV2_PREAMBLE_PERIOD_SYMBOLS cfg)
                then (push_symbol s x)\<lparr>d_preamble_time_samples :=
                         Tracking_sample_counter (hd (d_symbol_history s @ [x])),
                       d_stat := 0\<rparr>
                else (push_symbol s x)\<lparr>d_preamble_time_samples :=
                         Tracking_sample_counter (hd (d_symbol_history s @ [x]))\<rparr>)
          else push_symbol s x)"
  by (simp add: sync_phase_corr frame_sync_stat1)

lemma sync_phase_stat2:
  "d_stat s = 2 \<Longrightarrow> corr_value_of cfg s x = Inr c \<Longrightarrow>
   sync_phase cfg col s x =
     (if decode_due cfg s then decode_frame cfg col (push_symbol s x) c
      else Inr (push_symbol s x))"
  by (simp add: sync_phase_corr frame_sync_stat2 decode_due_def)

lemma sync_phase_other:
  "d_stat s > 2 \<Longrightarrow> corr_value_of cfg s x = Inr c \<Longrightarrow>
   sync_phase cfg col s x = Inr (push_symbol s x)"
  by (simp add: sync_phase_corr frame_sync_other)

lemma sync_phase_due:
  assumes "decoder_inv cfg s" and "constants_ok cfg" and "decode_due cfg s"
  shows "\<exists>m b. sync_phase cfg col s x = Inr m \<and> crc_reported cfg col s x = Some b \<and>
           d_symbol_history m = d_symbol_history s @ [x] \<and>
           d_sample_counter m = d_sample_counter s + 1 \<and>
           d_preamble_index m = d_sample_counter s + 1 \<and>
           d_symbols_per_preamble m = d_symbols_per_preamble s \<and>
           d_preambles_symbols m = d_preambles_symbols s \<and>
           d_TOW_at_current_symbol m = d_TOW_at_current_symbol s \<and>
           d_flag_preamble m = b \<and>
           d_CRC_error_counter m = (if b then 0 else d_CRC_error_counter s + 1) \<and>
           d_flag_frame_sync m =
             (if b then True
              else if d_CRC_error_counter s + 1 > CRC_ERROR_LIMIT then False
              else d_flag_frame_sync s) \<and>
           d_stat m = (if \<not> b \<and> d_CRC_error_counter s + 1 > CRC_ERROR_LIMIT then 0 else 2)"
proof -
  have fits: "BEIDOU_CNAV2_PREAMBLE_LENGTH_SYMBOLS cfg \<le> BEIDOU_CNAV2_STRING_SYMBOLS cfg"
    using assms(2) by (simp add: constants_ok_def)
  obtain c where c: "corr_value_of cfg s x = Inr c"
    using corr_value_of_total [OF assms(1) fits] by blast
  have stat: "d_stat s = 2"
    and due: "d_sample_counter s + 1 = d_preamble_index s + BEIDOU_CNAV2_STRING_SYMBOLS cfg"
    using assms(3) by (simp_all add: decode_due_def)
  have "1 \<le> d_preamble_index s" using assms(1) stat by (simp add: decoder_inv_def)
  with due have "BEIDOU_CNAV2_STRING_SYMBOLS cfg \<le> d_sample_counter s" by simp
  then have len: "length (d_symbol_history s) = BEIDOU_CNAV2_STRING_SYMBOLS cfg"
    using assms(1) by (simp add: decoder_inv_def)
  have spp: "d_symbols_per_preamble s = BEIDOU_CNAV2_PREAMBLE_LENGTH_SYMBOLS cfg"
    using assms(1) by (simp add: decoder_inv_def)
  obtain s1 where s1: "fetch_and_decode cfg col (push_symbol s x) c = Inr s1"
    using fetch_and_decode_total [of cfg "push_symbol s x" col c] len spp assms(2)
    by (auto simp: constants_ok_def)
  note f = fetch_and_decode_InrD [OF s1]
  have sp: "sync_phase cfg col s x = Inr (crc_outcome s1)"
    using c stat assms(3) s1 by (simp add: sync_phase_stat2 decode_frame_def)
  have cr: "crc_reported cfg col s x = Some (flag_CRC_test (d_nav s1))"
    using c s1 by (simp add: crc_reported_def)
  show ?thesis
  proof (cases "flag_CRC_test (d_nav s1)")
    case True
    then show ?thesis
      using sp cr f stat crc_outcome_pass [of s1] by simp
  next
    case False
    then show ?thesis
      using sp cr f stat crc_outcome_fail [of s1] by simp
  qed
qed

lemma sync_phase_total:
  assumes "decoder_inv cfg s"
    and "BEIDOU_CNAV2_PREAMBLE_LENGTH_SYMBOLS cfg \<le> BEIDOU_CNAV2_STRING_SYMBOLS cfg"
    and "decode_due cfg s \<longrightarrow> constants_ok cfg"
  shows "\<exists>m. sync_phase cfg col s x = Inr m \<and>
           d_symbol_history m = d_symbol_history s @ [x] \<and>
           d_sample_counter m = d_sample_counter s + 1 \<and>
           d_symbols_per_preamble m = d_symbols_per_preamble s \<and>
           d_preambles_symbols m = d_preambles_symbols s \<and>
           d_TOW_at_current_symbol m = d_TOW_at_current_symbol s \<and>
           (d_stat m \<noteq> 2 \<or> 1 \<le> d_preamble_index m)"
proof -
  obtain c where c: "corr_value_of cfg s x = Inr c"
    using corr_value_of_total [OF assms(1,2)] by blast
  have idx: "d_stat s \<noteq> 2 \<or> 1 \<le> d_preamble_index s"
    using assms(1) by (simp add: decoder_inv_def)
  consider (a) "d_stat s = 0" | (b) "d_stat s = 1" | (c) "d_stat s = 2" "decode_due cfg s"
    | (d) "d_stat s = 2" "\<not> decode_due cfg s" | (e) "d_stat s > 2"
    by linarith
  then show ?thesis
  proof cases
    case a
    then show ?thesis using c by (simp add: sync_phase_stat0)
  next
    case b
    then show ?thesis using c by (simp add: sync_phase_stat1)
  next
    case c
    with assms have "constants_ok cfg" by simp
    from sync_phase_due [OF assms(1) this c(2), of col x] show ?thesis by auto
  next
    case d
    then show ?thesis using c idx by (simp add: sync_phase_stat2)
  next
    case e
    then show ?thesis using c by (simp add: sync_phase_other)
  qed
qed

lemma after_sync_inv:
  assumes "decoder_inv cfg s"
    and "d_symbol_history m = d_symbol_history s @ [x]"
    and "d_sample_counter m = d_sample_counter s + 1"
    and "d_symbols_per_preamble m = d_symbols_per_preamble s"
    and "d_preambles_symbols m = d_preambles_symbols s"
    and "d_stat m \<noteq> 2 \<or> 1 \<le> d_preamble_index m"
  shows "decoder_inv cfg (after_sync fp cfg m inp)"
  using assms by (auto simp: decoder_inv_def after_sync_history)

lemma general_work_total:
  assumes "decoder_inv cfg s"
    and "BEIDOU_CNAV2_PREAMBLE_LENGTH_SYMBOLS cfg \<le> BEIDOU_CNAV2_STRING_SYMBOLS cfg"
    and "decode_due cfg s \<longrightarrow> constants_ok cfg"
  shows "\<exists>s' r. general_work fp cfg col s inp = Inr (s', r) \<and> decoder_inv cfg s' \<and>
           d_sample_counter s' = d_sample_counter s + 1"
proof -
  obtain m where m: "sync_phase cfg col s (fst inp) = Inr m"
    and h: "d_symbol_history m = d_symbol_history s @ [fst inp]"
      "d_sample_counter m = d_sample_counter s + 1"
      "d_symbols_per_preamble m = d_symbols_per_preamble s"
      "d_preambles_symbols m = d_preambles_symbols s"
      "d_stat m \<noteq> 2 \<or> 1 \<le> d_preamble_index m"
    using sync_phase_total [OF assms, of col "fst inp"] by blast
  show ?thesis
    using general_work_sync [OF m] after_sync_inv [OF assms(1) h, where inp=inp and fp=fp] h(2) by simp
qed

lemma full_strengthD:
  "full_strength cfg s x \<Longrightarrow>
   \<exists>c. corr_value_of cfg s x = Inr c \<and> \<bar>c\<bar> \<ge> int (d_symbols_per_preamble s)"
  by (auto simp: full_strength_def split: sum.splits)

subsection \<open>What every call that returns preserves\<close>

lemma frame_sync_InrD:
  "frame_sync cfg col s c = Inr m \<Longrightarrow>
   d_symbol_history m = d_symbol_history s \<and> d_sample_counter m = d_sample_counter s \<and>
   d_symbols_per_preamble m = d_symbols_per_preamble s \<and>
   d_preambles_symbols m = d_preambles_symbols s \<and>
   d_TOW_at_current_symbol m = d_TOW_at_current_symbol s"
  unfolding frame_sync_def decode_frame_def Let_def
  by (auto split: if_splits sum.splits dest!: fetch_and_decode_InrD)

lemma sync_phase_InrD:
  "sync_phase cfg col s x = Inr m \<Longrightarrow>
   d_symbol_history m = d_symbol_history s @ [x] \<and>
   d_sample_counter m = d_sample_counter s + 1 \<and>
   d_symbols_per_preamble m = d_symbols_per_preamble s \<and>
   d_preambles_symbols m = d_preambles_symbols s \<and>
   d_TOW_at_current_symbol m = d_TOW_at_current_symbol s"
  by (auto simp: sync_phase_corr split: sum.splits dest!: frame_sync_InrD)

lemma general_work_history:
  assumes "general_work fp cfg col s inp = Inr (s', r)"
  shows "d_symbol_history s' =
     (if length (d_symbol_history s @ [fst inp]) > BEIDOU_CNAV2_STRING_SYMBOLS cfg
      then tl (d_symbol_history s @ [fst inp]) else d_symbol_history s @ [fst inp])"
proof -
  obtain m where m: "sync_phase cfg col s (fst inp) = Inr m" and s': "s' = after_sync fp cfg m inp"
    using general_work_InrD [OF assms] by blast
  show ?thesis using sync_phase_InrD [OF m] s' by (simp add: after_sync_history)
qed

lemma general_work_history_bound:
  assumes "general_work fp cfg col s inp = Inr (s', r)"
    and "length (d_symbol_history s) \<le> BEIDOU_CNAV2_STRING_SYMBOLS cfg"
  shows "length (d_symbol_history s') \<le> BEIDOU_CNAV2_STRING_SYMBOLS cfg"
  using general_work_history [OF assms(1)] assms(2) by (auto split: if_splits)

lemma run_history_bound:
  "run fp cfg col s inps = Inr (s', rs) \<Longrightarrow>
   length (d_symbol_history s) \<le> BEIDOU_CNAV2_STRING_SYMBOLS cfg \<Longrightarrow>
   length (d_symbol_history s') \<le> BEIDOU_CNAV2_STRING_SYMBOLS cfg"
proof (induction inps arbitrary: s rs)
  case Nil
  then show ?case by simp
next
  case (Cons inp inps)
  from Cons.prems(1) obtain s1 r rs1 where
    g: "general_work fp cfg col s inp = Inr (s1, r)" and
    r: "run fp cfg col s1 inps = Inr (s', rs1)"
    by (auto split: sum.splits)
  from general_work_history_bound [OF g Cons.prems(2)] Cons.IH [OF r] show ?case by blast
qed

lemma make_decoder_history:
  "make_decoder cfg prn dump nav0 = Inr s0 \<Longrightarrow> d_symbol_history s0 = []"
  by (auto simp: make_decoder_def split: if_splits)

lemma length_expand_preamble:
  "length (expand_preamble cfg) =
     BEIDOU_CNAV2_PREAMBLE_LENGTH_BITS cfg * BEIDOU_CNAV2_TELEMETRY_SYMBOLS_PER_PREAMBLE_BIT cfg"
proof -
  have c: "length (concat (map (\<lambda>b. replicate k (f b)) xs)) = length xs * k"
    for k and f :: "nat \<Rightarrow> int" and xs :: "nat list"
    by (induction xs) simp_all
  have "length (preambles_bits cfg) = BEIDOU_CNAV2_PREAMBLE_LENGTH_BITS cfg"
    by (simp add: preambles_bits_def)
  then show ?thesis unfolding expand_preamble_def by (simp only: c)
qed

lemma make_decoder_inv:
  assumes "constants_ok cfg"
  shows "\<exists>s0. make_decoder cfg prn dump nav0 = Inr s0 \<and> decoder_inv cfg s0"
  using assms
  by (simp add: make_decoder_def constants_ok_def decoder_inv_def length_expand_preamble)

lemma general_work_one_in_one_out:
  "general_work fp cfg col s inp = Inr (s', r) \<Longrightarrow> one_in_one_out inp r"
  by (auto simp: one_in_one_out_def annotate_def dest!: general_work_InrD)

lemma run_total:
  assumes "constants_ok cfg"
  shows "decoder_inv cfg s \<Longrightarrow>
    \<exists>s' rs. run fp cfg col s inps = Inr (s', rs) \<and> decoder_inv cfg s' \<and>
       list_all2 one_in_one_out inps rs \<and>
       d_sample_counter s' = d_sample_counter s + length inps"
proof (induction inps arbitrary: s)
  case Nil
  then show ?case by simp
next
  case (Cons inp inps)
  have fits: "BEIDOU_CNAV2_PREAMBLE_LENGTH_SYMBOLS cfg \<le> BEIDOU_CNAV2_STRING_SYMBOLS cfg"
    using assms by (simp add: constants_ok_def)
  obtain s1 r where g: "general_work fp cfg col s inp = Inr (s1, r)"
    and i: "decoder_inv cfg s1" and n: "d_sample_counter s1 = d_sample_counter s + 1"
    using general_work_total [OF Cons.prems fits, where col=col and inp=inp and fp=fp] assms by blast
  obtain s' rs where r: "run fp cfg col s1 inps = Inr (s', rs)" and i': "decoder_inv cfg s'"
    and l: "list_all2 one_in_one_out inps rs"
    and n': "d_sample_counter s' = d_sample_counter s1 + length inps"
    using Cons.IH [OF i] by blast
  show ?case
    using g r i' l n n' general_work_one_in_one_out [OF g] by simp
qed

subsection \<open>Steps of the synchroniser\<close>

lemma run_append:
  "run fp cfg col s (xs @ ys) =
     (case run fp cfg col s xs of
        Inl e \<Rightarrow> Inl e
      | Inr (s1, rs1) \<Rightarrow>
          (case run fp cfg col s1 ys of
             Inl e \<Rightarrow> Inl e
           | Inr (s2, rs2) \<Rightarrow> Inr (s2, rs1 @ rs2)))"
  by (induction xs arbitrary: s) (auto split: sum.splits prod.splits)

lemma general_work_step:
  assumes "decoder_inv cfg s"
    and "BEIDOU_CNAV2_PREAMBLE_LENGTH_SYMBOLS cfg \<le> BEIDOU_CNAV2_STRING_SYMBOLS cfg"
    and "decode_due cfg s \<longrightarrow> constants_ok cfg"
  shows "\<exists>m c. corr_value_of cfg s (fst inp) = Inr c \<and>
           sync_phase cfg col s (fst inp) = Inr m \<and>
           general_work fp cfg col s inp =
             Inr (after_sync fp cfg m inp,
                  \<lparr>consumed = 1, produced = [annotate fp (update_TOW fp cfg m) (fst inp)],
                   returned = 1\<rparr>) \<and>
           decoder_inv cfg (after_sync fp cfg m inp) \<and>
           d_sample_counter m = d_sample_counter s + 1"
proof -
  obtain c where c: "corr_value_of cfg s (fst inp) = Inr c"
    using corr_value_of_total [OF assms(1,2)] by blast
  obtain m where m: "sync_phase cfg col s (fst inp) = Inr m"
    and h: "d_symbol_history m = d_symbol_history s @ [fst inp]"
      "d_sample_counter m = d_sample_counter s + 1"
      "d_symbols_per_preamble m = d_symbols_per_preamble s"
      "d_preambles_symbols m = d_preambles_symbols s"
      "d_stat m \<noteq> 2 \<or> 1 \<le> d_preamble_index m"
    using sync_phase_total [OF assms, of col "fst inp"] by blast
  show ?thesis
    using c m general_work_sync [OF m] after_sync_inv [OF assms(1) h, where inp=inp and fp=fp] h(2) by blast
qed

lemma locked_idle_step:
  assumes "decoder_inv cfg s"
    and "BEIDOU_CNAV2_PREAMBLE_LENGTH_SYMBOLS cfg \<le> BEIDOU_CNAV2_STRING_SYMBOLS cfg"
    and "d_stat s = 2" and "\<not> decode_due cfg s"
  shows "\<exists>s' r. general_work fp cfg col s inp = Inr (s', r) \<and> decoder_inv cfg s' \<and>
           d_stat s' = 2 \<and> d_preamble_index s' = d_preamble_index s \<and>
           d_CRC_error_counter s' = d_CRC_error_counter s \<and>
           d_flag_frame_sync s' = d_flag_frame_sync s \<and>
           d_sample_counter s' = d_sample_counter s + 1"
proof -
  obtain m c where c: "corr_value_of cfg s (fst inp) = Inr c"
    and m: "sync_phase cfg col s (fst inp) = Inr m"
    and g: "general_work fp cfg col s inp =
             Inr (after_sync fp cfg m inp,
                  \<lparr>consumed = 1, produced = [annotate fp (update_TOW fp cfg m) (fst inp)],
                   returned = 1\<rparr>)"
    and i: "decoder_inv cfg (after_sync fp cfg m inp)"
    using general_work_step [OF assms(1,2), where col=col and inp=inp and fp=fp] assms(4) by blast
  have "m = push_symbol s (fst inp)"
    using sync_phase_stat2 [OF assms(3) c, of col] m assms(4) by simp
  then show ?thesis using g i assms(3) by simp
qed

lemma locked_due_step:
  assumes "decoder_inv cfg s" and "constants_ok cfg" and "decode_due cfg s"
  shows "\<exists>s' r b. general_work fp cfg col s inp = Inr (s', r) \<and> decoder_inv cfg s' \<and>
           crc_reported cfg col s (fst inp) = Some b \<and>
           d_sample_counter s' = d_sample_counter s + 1 \<and>
           d_preamble_index s' = d_sample_counter s + 1 \<and>
           d_CRC_error_counter s' = (if b then 0 else d_CRC_error_counter s + 1) \<and>
           d_flag_frame_sync s' =
             (if b then True
              else if d_CRC_error_counter s + 1 > CRC_ERROR_LIMIT then False
              else d_flag_frame_sync s) \<and>
           d_stat s' = (if \<not> b \<and> d_CRC_error_counter s + 1 > CRC_ERROR_LIMIT then 0 else 2)"
proof -
  have fits: "BEIDOU_CNAV2_PREAMBLE_LENGTH_SYMBOLS cfg \<le> BEIDOU_CNAV2_STRING_SYMBOLS cfg"
    using assms(2) by (simp add: constants_ok_def)
  obtain m where m: "sync_phase cfg col s (fst inp) = Inr m"
    and g: "general_work fp cfg col s inp =
             Inr (after_sync fp cfg m inp,
                  \<lparr>consumed = 1, produced = [annotate fp (update_TOW fp cfg m) (fst inp)],
                   returned = 1\<rparr>)"
    and i: "decoder_inv cfg (after_sync fp cfg m inp)"
    using general_work_step [OF assms(1) fits, where col=col and inp=inp and fp=fp] assms(2) by blast
  from sync_phase_due [OF assms, of col "fst inp"] m
  obtain b where "crc_reported cfg col s (fst inp) = Some b"
    "d_sample_counter m = d_sample_counter s + 1"
    "d_preamble_index m = d_sample_counter s + 1"
    "d_CRC_error_counter m = (if b then 0 else d_CRC_error_counter s + 1)"
    "d_flag_frame_sync m =
             (if b then True
              else if d_CRC_error_counter s + 1 > CRC_ERROR_LIMIT then False
              else d_flag_frame_sync s)"
    "d_stat m = (if \<not> b \<and> d_CRC_error_counter s + 1 > CRC_ERROR_LIMIT then 0 else 2)"
    by auto
  then show ?thesis using g i by simp
qed

lemma unlocked_step:
  assumes "decoder_inv cfg s"
    and "BEIDOU_CNAV2_PREAMBLE_LENGTH_SYMBOLS cfg \<le> BEIDOU_CNAV2_STRING_SYMBOLS cfg"
    and "d_stat s \<noteq> 2"
  shows "\<exists>s' r. general_work fp cfg col s inp = Inr (s', r) \<and> decoder_inv cfg s' \<and>
           d_CRC_error_counter s' = d_CRC_error_counter s \<and>
           d_flag_frame_sync s' = d_flag_frame_sync s \<and>
           d_sample_counter s' = d_sample_counter s + 1"
proof -
  have nd: "\<not> decode_due cfg s" using assms(3) by (simp add: decode_due_def)
  obtain m c where c: "corr_value_of cfg s (fst inp) = Inr c"
    and m: "sync_phase cfg col s (fst inp) = Inr m"
    and g: "general_work fp cfg col s inp =
             Inr (after_sync fp cfg m inp,
                  \<lparr>consumed = 1, produced = [annotate fp (update_TOW fp cfg m) (fst inp)],
                   returned = 1\<rparr>)"
    and i: "decoder_inv cfg (after_sync fp cfg m inp)"
    and n: "d_sample_counter m = d_sample_counter s + 1"
    using general_work_step [OF assms(1,2), where col=col and inp=inp and fp=fp] nd by blast
  consider (a) "d_stat s = 0" | (b) "d_stat s = 1" | (e) "d_stat s > 2"
    using assms(3) by linarith
  then have "d_CRC_error_counter m = d_CRC_error_counter s \<and>
             d_flag_frame_sync m = d_flag_frame_sync s"
  proof cases
    case a
    from sync_phase_stat0 [OF a c, of col] m show ?thesis by (auto split: if_splits)
  next
    case b
    from sync_phase_stat1 [OF b c, of col] m show ?thesis by (auto split: if_splits)
  next
    case e
    from sync_phase_other [OF e c, of col] m show ?thesis by auto
  qed
  then show ?thesis using g i n by simp
qed

text \<open>In LOCKED, the calls before the next decode is due change nothing of the lock.\<close>

lemma crc_results_append:
  "run fp cfg col s xs = Inr (s1, rs) \<Longrightarrow>
   crc_results fp cfg col s (xs @ ys) = crc_results fp cfg col s xs @ crc_results fp cfg col s1 ys"
  by (induction xs arbitrary: s rs) (auto split: sum.splits prod.splits)

lemma locked_idle_run:
  assumes fits: "BEIDOU_CNAV2_PREAMBLE_LENGTH_SYMBOLS cfg \<le> BEIDOU_CNAV2_STRING_SYMBOLS cfg"
  shows "decoder_inv cfg s \<Longrightarrow> d_stat s = 2 \<Longrightarrow>
    d_sample_counter s + length inps < d_preamble_index s + BEIDOU_CNAV2_STRING_SYMBOLS cfg \<Longrightarrow>
    \<exists>s' rs. run fp cfg col s inps = Inr (s', rs) \<and> decoder_inv cfg s' \<and>
       d_stat s' = 2 \<and> d_preamble_index s' = d_preamble_index s \<and>
       d_CRC_error_counter s' = d_CRC_error_counter s \<and>
       d_flag_frame_sync s' = d_flag_frame_sync s \<and>
       d_sample_counter s' = d_sample_counter s + length inps \<and>
       crc_results fp cfg col s inps = []"
proof (induction inps arbitrary: s)
  case Nil
  then show ?case by simp
next
  case (Cons inp inps)
  have nd: "\<not> decode_due cfg s" using Cons.prems(3) by (simp add: decode_due_def)
  obtain s1 r where g: "general_work fp cfg col s inp = Inr (s1, r)"
    and s1: "decoder_inv cfg s1" "d_stat s1 = 2" "d_preamble_index s1 = d_preamble_index s"
      "d_CRC_error_counter s1 = d_CRC_error_counter s"
      "d_flag_frame_sync s1 = d_flag_frame_sync s"
      "d_sample_counter s1 = d_sample_counter s + 1"
    using locked_idle_step [OF Cons.prems(1) fits Cons.prems(2) nd,
        where col=col and inp=inp and fp=fp]
    by blast
  have "d_sample_counter s1 + length inps
          < d_preamble_index s1 + BEIDOU_CNAV2_STRING_SYMBOLS cfg"
    using Cons.prems(3) s1 by simp
  from Cons.IH [OF s1(1,2) this] obtain s' rs where
    "run fp cfg col s1 inps = Inr (s', rs)" "decoder_inv cfg s'" "d_stat s' = 2"
    "d_preamble_index s' = d_preamble_index s1"
    "d_CRC_error_counter s' = d_CRC_error_counter s1"
    "d_flag_frame_sync s' = d_flag_frame_sync s1"
    "d_sample_counter s' = d_sample_counter s1 + length inps"
    "crc_results fp cfg col s1 inps = []"
    by blast
  then show ?case using g s1 nd by simp
qed

text \<open>One whole string period in LOCKED, ending with a decode that fails the CRC.\<close>

lemma failed_frame_run:
  assumes ok: "constants_ok cfg"
    and fails: "list_all (\<lambda>b. \<not> b) (crc_results fp cfg col s inps)"
    and inv: "decoder_inv cfg s" and stat: "d_stat s = 2"
    and at: "d_sample_counter s = d_preamble_index s"
    and len: "length inps = BEIDOU_CNAV2_STRING_SYMBOLS cfg"
  shows "\<exists>s' rs. run fp cfg col s inps = Inr (s', rs) \<and> decoder_inv cfg s' \<and>
       d_sample_counter s' = d_preamble_index s' \<and>
       d_preamble_index s' = d_preamble_index s + BEIDOU_CNAV2_STRING_SYMBOLS cfg \<and>
       d_CRC_error_counter s' = d_CRC_error_counter s + 1 \<and>
       d_flag_frame_sync s' =
         (if d_CRC_error_counter s + 1 > CRC_ERROR_LIMIT then False else d_flag_frame_sync s) \<and>
       d_stat s' = (if d_CRC_error_counter s + 1 > CRC_ERROR_LIMIT then 0 else 2) \<and>
       crc_results fp cfg col s inps = [False]"
proof -
  have fits: "BEIDOU_CNAV2_PREAMBLE_LENGTH_SYMBOLS cfg \<le> BEIDOU_CNAV2_STRING_SYMBOLS cfg"
    and pos: "0 < BEIDOU_CNAV2_STRING_SYMBOLS cfg"
    using ok by (simp_all add: constants_ok_def)
  from pos len obtain ys y where inps: "inps = ys @ [y]"
    by (cases inps rule: rev_cases) auto
  with len have ly: "length ys + 1 = BEIDOU_CNAV2_STRING_SYMBOLS cfg" by simp
  then have "d_sample_counter s + length ys < d_preamble_index s + BEIDOU_CNAV2_STRING_SYMBOLS cfg"
    using at by simp
  from locked_idle_run [OF fits inv stat this, where col=col and fp=fp] obtain s1 rs1 where
    r1: "run fp cfg col s ys = Inr (s1, rs1)" and s1: "decoder_inv cfg s1" "d_stat s1 = 2"
      "d_preamble_index s1 = d_preamble_index s"
      "d_CRC_error_counter s1 = d_CRC_error_counter s"
      "d_flag_frame_sync s1 = d_flag_frame_sync s"
      "d_sample_counter s1 = d_sample_counter s + length ys"
    and c1: "crc_results fp cfg col s ys = []"
    by blast
  have due: "decode_due cfg s1" using s1 ly at by (simp add: decode_due_def)
  from locked_due_step [OF s1(1) ok due, where col=col and inp=y and fp=fp]
  obtain s2 r2 b where g: "general_work fp cfg col s1 y = Inr (s2, r2)" and
    b: "crc_reported cfg col s1 (fst y) = Some b" and
    s2: "decoder_inv cfg s2" "d_sample_counter s2 = d_sample_counter s1 + 1"
       "d_preamble_index s2 = d_sample_counter s1 + 1"
       "d_CRC_error_counter s2 = (if b then 0 else d_CRC_error_counter s1 + 1)"
       "d_flag_frame_sync s2 =
          (if b then True
           else if d_CRC_error_counter s1 + 1 > CRC_ERROR_LIMIT then False
           else d_flag_frame_sync s1)"
       "d_stat s2 = (if \<not> b \<and> d_CRC_error_counter s1 + 1 > CRC_ERROR_LIMIT then 0 else 2)"
    by blast
  have c: "crc_results fp cfg col s inps = [b]"
    using crc_results_append [OF r1, of "[y]"] c1 g b due by (simp add: inps)
  with fails have nb: "\<not> b" by simp
  have "run fp cfg col s inps = Inr (s2, rs1 @ [r2])"
    using r1 g by (simp add: inps run_append)
  then show ?thesis using s1 s2 ly at c nb by simp
qed

lemma failed_frames_run:
  assumes ok: "constants_ok cfg"
  shows "list_all (\<lambda>b. \<not> b) (crc_results fp cfg col s inps) \<Longrightarrow>
    decoder_inv cfg s \<Longrightarrow> d_stat s = 2 \<Longrightarrow> d_sample_counter s = d_preamble_index s \<Longrightarrow>
    length inps = k * BEIDOU_CNAV2_STRING_SYMBOLS cfg \<Longrightarrow>
    d_CRC_error_counter s + k \<le> CRC_ERROR_LIMIT \<Longrightarrow>
    \<exists>s' rs. run fp cfg col s inps = Inr (s', rs) \<and> decoder_inv cfg s' \<and> d_stat s' = 2 \<and>
       d_sample_counter s' = d_preamble_index s' \<and>
       d_preamble_index s' = d_preamble_index s + k * BEIDOU_CNAV2_STRING_SYMBOLS cfg \<and>
       d_CRC_error_counter s' = d_CRC_error_counter s + k \<and>
       d_flag_frame_sync s' = d_flag_frame_sync s \<and>
       crc_results fp cfg col s inps = replicate k False"
proof (induction k arbitrary: s inps)
  case 0
  then show ?case by simp
next
  case (Suc k)
  let ?S = "BEIDOU_CNAV2_STRING_SYMBOLS cfg"
  let ?xs = "take ?S inps" and ?ys = "drop ?S inps"
  have lx: "length ?xs = ?S" and ly: "length ?ys = k * ?S"
    using Suc.prems(5) by simp_all
  have fits: "BEIDOU_CNAV2_PREAMBLE_LENGTH_SYMBOLS cfg \<le> ?S"
    using ok by (simp add: constants_ok_def)
  obtain t rt where rx: "run fp cfg col s ?xs = Inr (t, rt)"
    using run_total [OF ok Suc.prems(2), where col=col and inps="?xs" and fp=fp] by blast
  have split: "crc_results fp cfg col s inps =
      crc_results fp cfg col s ?xs @ crc_results fp cfg col t ?ys"
    using crc_results_append [OF rx, of ?ys] by simp
  have fx: "list_all (\<lambda>b. \<not> b) (crc_results fp cfg col s ?xs)"
    and fy: "list_all (\<lambda>b. \<not> b) (crc_results fp cfg col t ?ys)"
    using Suc.prems(1) split by simp_all
  from failed_frame_run [OF ok fx Suc.prems(2,3,4) lx] Suc.prems(6) rx
  have t: "decoder_inv cfg t" "d_sample_counter t = d_preamble_index t"
      "d_preamble_index t = d_preamble_index s + ?S"
      "d_CRC_error_counter t = d_CRC_error_counter s + 1"
      "d_flag_frame_sync t = d_flag_frame_sync s" "d_stat t = 2"
      "crc_results fp cfg col s ?xs = [False]"
    by (auto split: if_splits)
  have "d_CRC_error_counter t + k \<le> CRC_ERROR_LIMIT" using t Suc.prems(6) by simp
  from Suc.IH [OF fy t(1) t(6) t(2) ly this] obtain s' rs where
    r2: "run fp cfg col t ?ys = Inr (s', rs)" and
    s': "decoder_inv cfg s'" "d_stat s' = 2" "d_sample_counter s' = d_preamble_index s'"
       "d_preamble_index s' = d_preamble_index t + k * ?S"
       "d_CRC_error_counter s' = d_CRC_error_counter t + k"
       "d_flag_frame_sync s' = d_flag_frame_sync t"
       "crc_results fp cfg col t ?ys = replicate k False"
    by blast
  have "run fp cfg col s (?xs @ ?ys) = Inr (s', rt @ rs)"
    using rx r2 by (simp only: run_append sum.case prod.case)
  then have "run fp cfg col s inps = Inr (s', rt @ rs)" by simp
  then show ?case using s' t split by simp
qed

lemma narrow_int32_id: "- (2 ^ 31) \<le> n \<Longrightarrow> n < 2 ^ 31 \<Longrightarrow> narrow_int32 n = n"
  unfolding narrow_int32_def
  by (simp add: sint_sbintrunc' signed_take_bit_int_eq_self)

lemma narrow_int32_lt: "narrow_int32 n < 2 ^ 31"
  unfolding narrow_int32_def using sint_lt [of "word_of_int n :: 32 word"] by simp

lemma narrow_int32_below:
  assumes "0 \<le> n" and "n < p"
  shows "narrow_int32 n < p"
proof (cases "n < 2 ^ 31")
  case True
  with assms show ?thesis by (simp add: narrow_int32_id)
next
  case False
  with narrow_int32_lt [of n] assms show ?thesis by simp
qed

lemma no_lock_detect_step:
  assumes "decoder_inv cfg s"
    and "BEIDOU_CNAV2_PREAMBLE_LENGTH_SYMBOLS cfg \<le> BEIDOU_CNAV2_STRING_SYMBOLS cfg"
    and "d_stat s = 0" and "full_strength cfg s (fst inp)"
  shows "\<exists>s' r. general_work fp cfg col s inp = Inr (s', r) \<and> decoder_inv cfg s' \<and>
           d_stat s' = 1 \<and> d_preamble_index s' = d_sample_counter s + 1 \<and>
           d_preamble_time_samples s' =
             Tracking_sample_counter (hd (d_symbol_history s @ [fst inp])) \<and>
           d_sample_counter s' = d_sample_counter s + 1"
proof -
  have nd: "\<not> decode_due cfg s" using assms(3) by (simp add: decode_due_def)
  obtain m c where c: "corr_value_of cfg s (fst inp) = Inr c"
    and m: "sync_phase cfg col s (fst inp) = Inr m"
    and g: "general_work fp cfg col s inp =
             Inr (after_sync fp cfg m inp,
                  \<lparr>consumed = 1, produced = [annotate fp (update_TOW fp cfg m) (fst inp)],
                   returned = 1\<rparr>)"
    and i: "decoder_inv cfg (after_sync fp cfg m inp)"
    using general_work_step [OF assms(1,2), where col=col and inp=inp and fp=fp] nd by blast
  have "\<bar>c\<bar> \<ge> int (d_symbols_per_preamble s)"
    using full_strengthD [OF assms(4)] c by simp
  with sync_phase_stat0 [OF assms(3) c, of col] m
  have "m = (push_symbol s (fst inp))\<lparr>d_preamble_index := d_sample_counter s + 1, d_stat := 1,
                 d_preamble_time_samples :=
                   Tracking_sample_counter (hd (d_symbol_history s @ [fst inp]))\<rparr>"
    by simp
  then show ?thesis using g i by simp
qed

lemma presync_early_step:
  assumes "decoder_inv cfg s"
    and "BEIDOU_CNAV2_PREAMBLE_LENGTH_SYMBOLS cfg \<le> BEIDOU_CNAV2_STRING_SYMBOLS cfg"
    and "d_stat s = 1"
    and "d_sample_counter s + 1 < d_preamble_index s + BEIDOU_CNAV2_PREAMBLE_PERIOD_SYMBOLS cfg"
    and "d_preamble_index s \<le> d_sample_counter s + 1"
  shows "\<exists>s' r. general_work fp cfg col s inp = Inr (s', r) \<and> decoder_inv cfg s' \<and>
           d_stat s' = 1 \<and> d_preamble_index s' = d_preamble_index s \<and>
           d_sample_counter s' = d_sample_counter s + 1"
proof -
  have nd: "\<not> decode_due cfg s" using assms(3) by (simp add: decode_due_def)
  obtain m c where c: "corr_value_of cfg s (fst inp) = Inr c"
    and m: "sync_phase cfg col s (fst inp) = Inr m"
    and g: "general_work fp cfg col s inp =
             Inr (after_sync fp cfg m inp,
                  \<lparr>consumed = 1, produced = [annotate fp (update_TOW fp cfg m) (fst inp)],
                   returned = 1\<rparr>)"
    and i: "decoder_inv cfg (after_sync fp cfg m inp)"
    using general_work_step [OF assms(1,2), where col=col and inp=inp and fp=fp] nd by blast
  have "narrow_int32 (int (d_sample_counter s + 1) - int (d_preamble_index s))
          < int (BEIDOU_CNAV2_PREAMBLE_PERIOD_SYMBOLS cfg)"
    using assms(4,5) by (intro narrow_int32_below) simp_all
  with sync_phase_stat1 [OF assms(3) c, of col] m assms(3)
  have "d_stat m = 1 \<and> d_preamble_index m = d_preamble_index s \<and>
        d_sample_counter m = d_sample_counter s + 1"
    by (auto split: if_splits)
  then show ?thesis using g i by simp
qed

lemma presync_wait_run:
  assumes fits: "BEIDOU_CNAV2_PREAMBLE_LENGTH_SYMBOLS cfg \<le> BEIDOU_CNAV2_STRING_SYMBOLS cfg"
  shows "decoder_inv cfg s \<Longrightarrow> d_stat s = 1 \<Longrightarrow>
    d_sample_counter s + length inps
      < d_preamble_index s + BEIDOU_CNAV2_PREAMBLE_PERIOD_SYMBOLS cfg \<Longrightarrow>
    d_preamble_index s \<le> d_sample_counter s + 1 \<Longrightarrow>
    \<exists>s' rs. run fp cfg col s inps = Inr (s', rs) \<and> decoder_inv cfg s' \<and>
       d_stat s' = 1 \<and> d_preamble_index s' = d_preamble_index s \<and>
       d_sample_counter s' = d_sample_counter s + length inps"
proof (induction inps arbitrary: s)
  case Nil
  then show ?case by simp
next
  case (Cons inp inps)
  have "d_sample_counter s + 1 < d_preamble_index s + BEIDOU_CNAV2_PREAMBLE_PERIOD_SYMBOLS cfg"
    using Cons.prems(3) by simp
  from presync_early_step [OF Cons.prems(1) fits Cons.prems(2) this Cons.prems(4),
      where col=col and inp=inp and fp=fp]
  obtain s1 r where g: "general_work fp cfg col s inp = Inr (s1, r)"
    and s1: "decoder_inv cfg s1" "d_stat s1 = 1" "d_preamble_index s1 = d_preamble_index s"
      "d_sample_counter s1 = d_sample_counter s + 1"
    by blast
  have "d_sample_counter s1 + length inps
          < d_preamble_index s1 + BEIDOU_CNAV2_PREAMBLE_PERIOD_SYMBOLS cfg"
    using Cons.prems(3) s1 by simp
  moreover have "d_preamble_index s1 \<le> d_sample_counter s1 + 1"
    using Cons.prems(4) s1 by simp
  ultimately obtain s' rs where
    "run fp cfg col s1 inps = Inr (s', rs)" "decoder_inv cfg s'" "d_stat s' = 1"
    "d_preamble_index s' = d_preamble_index s1"
    "d_sample_counter s' = d_sample_counter s1 + length inps"
    using Cons.IH [OF s1(1,2)] by blast
  then show ?case using g s1 by simp
qed

lemma presync_lock_step:
  assumes "decoder_inv cfg s"
    and "BEIDOU_CNAV2_PREAMBLE_LENGTH_SYMBOLS cfg \<le> BEIDOU_CNAV2_STRING_SYMBOLS cfg"
    and "d_stat s = 1" and "full_strength cfg s (fst inp)"
    and "d_sample_counter s + 1 = d_preamble_index s + BEIDOU_CNAV2_PREAMBLE_PERIOD_SYMBOLS cfg"
    and "BEIDOU_CNAV2_PREAMBLE_PERIOD_SYMBOLS cfg < 2 ^ 31"
  shows "\<exists>s' r. general_work fp cfg col s inp = Inr (s', r) \<and>
           d_stat s' = 2 \<and> d_preamble_index s' = d_sample_counter s + 1"
proof -
  have nd: "\<not> decode_due cfg s" using assms(3) by (simp add: decode_due_def)
  obtain m c where c: "corr_value_of cfg s (fst inp) = Inr c"
    and m: "sync_phase cfg col s (fst inp) = Inr m"
    and g: "general_work fp cfg col s inp =
             Inr (after_sync fp cfg m inp,
                  \<lparr>consumed = 1, produced = [annotate fp (update_TOW fp cfg m) (fst inp)],
                   returned = 1\<rparr>)"
    using general_work_step [OF assms(1,2), where col=col and inp=inp and fp=fp] nd by blast
  have "\<bar>c\<bar> \<ge> int (d_symbols_per_preamble s)"
    using full_strengthD [OF assms(4)] c by simp
  moreover have "int (d_sample_counter s + 1) - int (d_preamble_index s)
      = int (BEIDOU_CNAV2_PREAMBLE_PERIOD_SYMBOLS cfg)"
    using assms(5) by simp
  then have "narrow_int32 (int (d_sample_counter s + 1) - int (d_preamble_index s))
      = int (BEIDOU_CNAV2_PREAMBLE_PERIOD_SYMBOLS cfg)"
    using assms(6) by (simp add: narrow_int32_id)
  ultimately have "d_stat m = 2 \<and> d_preamble_index m = d_sample_counter s + 1"
    using sync_phase_stat1 [OF assms(3) c, of col] m by simp
  then show ?thesis using g by simp
qed

subsection \<open>The correlation and the bit conversion in closed form\<close>

lemma lt_zero_dneg:
  "x \<noteq> Finite 0 \<Longrightarrow> x \<noteq> NaN \<Longrightarrow> lt_zero (dneg x) = (\<not> lt_zero x)"
  by (cases x) auto

lemma corr_loop_negate:
  "list_all (\<lambda>y. Prompt_I y \<noteq> Finite 0 \<and> Prompt_I y \<noteq> NaN) (take n hist) \<Longrightarrow>
   acc' = - acc \<Longrightarrow>
   corr_loop tmpl (map negate_symbol hist) n i acc' =
     map_sum (\<lambda>e. e) uminus (corr_loop tmpl hist n i acc)"
proof (induction tmpl hist n i acc arbitrary: acc' rule: corr_loop.induct)
  case (1 tmpl hist n i corr_value)
  show ?case
  proof (cases "i < n \<and> i < length hist \<and> i < length tmpl")
    case True
    then have "Prompt_I (hist ! i) \<noteq> Finite 0" "Prompt_I (hist ! i) \<noteq> NaN"
      using "1.prems" by (simp_all add: list_all_length)
    then have flip: "lt_zero (dneg (Prompt_I (hist ! i))) = (\<not> lt_zero (Prompt_I (hist ! i)))"
      by (rule lt_zero_dneg)
    show ?thesis
    proof (cases "lt_zero (Prompt_I (hist ! i))")
      case neg: True
      have "corr_loop tmpl (map negate_symbol hist) n i acc' =
            corr_loop tmpl (map negate_symbol hist) n (i + 1) (acc' + tmpl ! i)"
        using True neg flip
        by (subst corr_loop.simps) (simp add: negate_symbol_def)
      also have "\<dots> = map_sum (\<lambda>e. e) uminus (corr_loop tmpl hist n (i + 1) (corr_value - tmpl ! i))"
        using True neg "1.prems" by (intro "1.IH"(1)) simp_all
      also have "corr_loop tmpl hist n (i + 1) (corr_value - tmpl ! i) =
            corr_loop tmpl hist n i corr_value"
        using True neg by (subst (2) corr_loop.simps) simp
      finally show ?thesis .
    next
      case pos: False
      have "corr_loop tmpl (map negate_symbol hist) n i acc' =
            corr_loop tmpl (map negate_symbol hist) n (i + 1) (acc' - tmpl ! i)"
        using True pos flip
        by (subst corr_loop.simps) (simp add: negate_symbol_def)
      also have "\<dots> = map_sum (\<lambda>e. e) uminus (corr_loop tmpl hist n (i + 1) (corr_value + tmpl ! i))"
        using True pos "1.prems" by (intro "1.IH"(2)) simp_all
      also have "corr_loop tmpl hist n (i + 1) (corr_value + tmpl ! i) =
            corr_loop tmpl hist n i corr_value"
        using True pos by (subst (2) corr_loop.simps) simp
      finally show ?thesis .
    qed
  next
    case False
    then show ?thesis
      using "1.prems"(2) by (subst corr_loop.simps, subst (2) corr_loop.simps) auto
  qed
qed

lemma preamble_correlation_negate:
  assumes "list_all (\<lambda>y. Prompt_I y \<noteq> Finite 0 \<and> Prompt_I y \<noteq> NaN) (take spp hist)"
  shows "preamble_correlation cfg tmpl spp (map negate_symbol hist) =
     map_sum (\<lambda>e. e) uminus (preamble_correlation cfg tmpl spp hist)"
  using corr_loop_negate [OF assms, of 0 0 tmpl 0]
  by (simp add: preamble_correlation_def)

lemma corr_loop_sum:
  "n \<le> length hist \<Longrightarrow> n \<le> length tmpl \<Longrightarrow> i \<le> n \<Longrightarrow>
   corr_loop tmpl hist n i acc =
     Inr (acc + (\<Sum>j = i..<n. if lt_zero (Prompt_I (hist ! j)) then - tmpl ! j else tmpl ! j))"
proof (induction tmpl hist n i acc rule: corr_loop.induct)
  case (1 tmpl hist n i corr_value)
  show ?case
  proof (cases "i < n")
    case True
    then show ?thesis
      using 1 by (subst corr_loop.simps) (simp add: sum.atLeast_Suc_lessThan)
  next
    case False
    then show ?thesis using "1.prems" by (subst corr_loop.simps) simp
  qed
qed

lemma bits_loop_eq:
  "24 + 288 \<le> length arr \<Longrightarrow> ii \<le> 24 + 288 \<Longrightarrow>
   bits_loop arr ii acc = Inr (acc @ map bit_value (take (24 + 288 - ii) (drop ii arr)))"
proof (induction arr ii acc rule: bits_loop.induct)
  case (1 arr ii acc)
  show ?case
  proof (cases "ii < 24 + 288")
    case True
    then have lt: "ii < length arr" using "1.prems" by simp
    have "24 + 288 - ii = Suc (24 + 288 - (ii + 1))" using True by simp
    then have "take (24 + 288 - ii) (drop ii arr) =
          arr ! ii # take (24 + 288 - (ii + 1)) (drop (ii + 1) arr)"
      using lt by (simp add: Cons_nth_drop_Suc [symmetric])
    then show ?thesis
      using 1 True lt by (subst bits_loop.simps) simp
  next
    case False
    then show ?thesis using "1.prems" by (subst bits_loop.simps) simp
  qed
qed

lemma symbols_to_bits_eq:
  "24 + 288 \<le> frame_length \<Longrightarrow> 24 + 288 \<le> length frame_symbols \<Longrightarrow>
   symbols_to_bits frame_symbols frame_length =
     Inr (map bit_value (take 288 (drop 24 frame_symbols)))"
  using bits_loop_eq [of frame_symbols 24 "[]"] by (simp add: symbols_to_bits_def)

lemma extract_loop_eq:
  "n + spp \<le> length hist \<Longrightarrow> n \<le> length arr \<Longrightarrow> i \<le> n \<Longrightarrow>
   extract_loop hist spp c n i arr =
     Inr (take i arr @ map (resolve_polarity c) (take (n - i) (drop (i + spp) hist)) @ drop n arr)"
proof (induction hist spp c n i arr rule: extract_loop.induct)
  case (1 hist spp c n i arr)
  show ?case
  proof (cases "i < n")
    case True
    let ?v = "resolve_polarity c (hist ! (i + spp))"
    have in_range: "i + spp < length hist" "i < length arr" using True "1.prems" by simp_all
    have step: "extract_loop hist spp c n i arr = extract_loop hist spp c n (i + 1) (arr[i := ?v])"
      using True in_range by (subst extract_loop.simps) (simp add: resolve_polarity_def)
    have ih: "extract_loop hist spp c n (i + 1) (arr[i := ?v]) =
         Inr (take (i + 1) (arr[i := ?v]) @
              map (resolve_polarity c) (take (n - (i + 1)) (drop (i + 1 + spp) hist)) @
              drop n (arr[i := ?v]))"
    proof (cases "c > 0")
      case True
      with "1.IH"(1) [of] \<open>i < n\<close> in_range "1.prems" show ?thesis
        by (simp add: resolve_polarity_def)
    next
      case False
      with "1.IH"(2) [of] \<open>i < n\<close> in_range "1.prems" show ?thesis
        by (simp add: resolve_polarity_def)
    qed
    have a: "take (i + 1) (arr[i := ?v]) = take i arr @ [?v]"
      using in_range by (simp add: take_Suc_conv_app_nth)
    have b: "drop n (arr[i := ?v]) = drop n arr" using True by simp
    have "n - i = Suc (n - (i + 1))" using True by simp
    then have c: "take (n - i) (drop (i + spp) hist) =
        hist ! (i + spp) # take (n - (i + 1)) (drop (i + 1 + spp) hist)"
      using in_range by (simp add: Cons_nth_drop_Suc [symmetric])
    show ?thesis by (simp only: step ih a b c) simp
  next
    case False
    then show ?thesis using "1.prems" by (subst extract_loop.simps) simp
  qed
qed

lemma general_work_template:
  assumes "general_work fp cfg col s inp = Inr (s', r)"
  shows "d_preambles_symbols s' = d_preambles_symbols s \<and>
         d_symbols_per_preamble s' = d_symbols_per_preamble s"
proof -
  obtain m where m: "sync_phase cfg col s (fst inp) = Inr m" and s': "s' = after_sync fp cfg m inp"
    using general_work_InrD [OF assms] by blast
  show ?thesis using sync_phase_InrD [OF m] s' by simp
qed

lemma map_negate_tl: "tl (map negate_symbol xs) = map negate_symbol (tl xs)"
  by (cases xs) simp_all

lemma sync_phase_flag_preamble:
  assumes "constants_ok cfg" and "decoder_inv cfg s"
    and "sync_phase cfg col s x = Inr m"
  shows "d_flag_preamble m = (decode_due cfg s \<and> crc_reported cfg col s x = Some True)"
proof -
  have fits: "BEIDOU_CNAV2_PREAMBLE_LENGTH_SYMBOLS cfg \<le> BEIDOU_CNAV2_STRING_SYMBOLS cfg"
    using assms(1) by (simp add: constants_ok_def)
  obtain c where c: "corr_value_of cfg s x = Inr c"
    using corr_value_of_total [OF assms(2) fits] by blast
  show ?thesis
  proof (cases "decode_due cfg s")
    case True
    from sync_phase_due [OF assms(2,1) True, of col x] assms(3) True show ?thesis by auto
  next
    case False
    consider (a) "d_stat s = 0" | (b) "d_stat s = 1" | (d) "d_stat s = 2" | (e) "d_stat s > 2"
      by arith
    then show ?thesis
    proof cases
      case a
      with sync_phase_stat0 [OF a c, of col] assms(3) False show ?thesis
        by (auto split: if_splits)
    next
      case b
      with sync_phase_stat1 [OF b c, of col] assms(3) False show ?thesis
        by (auto split: if_splits)
    next
      case d
      with sync_phase_stat2 [OF d c, of col] assms(3) False show ?thesis by auto
    next
      case e
      with sync_phase_other [OF e c, of col] assms(3) False show ?thesis by auto
    qed
  qed
qed

lemma after_sync_TOW:
  "d_TOW_at_current_symbol (after_sync fp cfg m inp) =
     (if d_flag_preamble m \<and> flag_TOW_new (d_nav m)
      then ddiv fp
             (dfloor (dmul fp (dsub fp (SOW (d_nav m)) (BEIDOU_CNAV2_PREAMBLE_DURATION_S cfg))
                              (Finite 1000)))
             (Finite 1000)
      else dadd fp (d_TOW_at_current_symbol m) (BEIDOU_B2a_CODE_PERIOD cfg))"
  "flag_TOW_new (d_nav (after_sync fp cfg m inp)) =
     (if d_flag_preamble m \<and> flag_TOW_new (d_nav m) then False else flag_TOW_new (d_nav m))"
  by (auto simp: after_sync_def pop_used_def dump_record_def update_TOW_def)

text \<open>
  Every state that the block reaches from its constructor satisfies \<open>decoder_inv\<close>.
\<close>

lemma reachable_decoder_inv:
  assumes "constants_ok cfg" and "make_decoder cfg prn dump nav0 = Inr s0"
    and "run fp cfg col s0 inps = Inr (s, rs)"
  shows "decoder_inv cfg s"
proof -
  have "decoder_inv cfg s0" using make_decoder_inv [OF assms(1), of prn dump nav0] assms(2) by simp
  from run_total [OF assms(1) this, where col=col and inps=inps and fp=fp] assms(3) show ?thesis by simp
qed

text \<open>
  What \<^verbatim>\<open>general_work\<close> hands to \<^verbatim>\<open>decode_string\<close>: the symbols of the window after
  the preamble, with the polarity of \<^verbatim>\<open>corr_value\<close>, zero-filled to the array length.
\<close>

lemma fetch_and_decode_symbols:
  assumes "BEIDOU_CNAV2_STRING_SYMBOLS cfg < length (d_symbol_history s)"
    and "d_symbols_per_preamble s \<le> BEIDOU_CNAV2_STRING_SYMBOLS cfg"
    and "BEIDOU_CNAV2_STRING_SYMBOLS cfg - d_symbols_per_preamble s \<le> BEIDOU_CNAV2_DATA_SYMBOLS cfg"
  shows "fetch_and_decode cfg col s c =
     decode_string col s
       (map (resolve_polarity c)
          (take (BEIDOU_CNAV2_STRING_SYMBOLS cfg - d_symbols_per_preamble s)
             (drop (d_symbols_per_preamble s) (d_symbol_history s))) @
        replicate (BEIDOU_CNAV2_DATA_SYMBOLS cfg -
                   (BEIDOU_CNAV2_STRING_SYMBOLS cfg - d_symbols_per_preamble s)) (Finite 0))
       (int (BEIDOU_CNAV2_STRING_SYMBOLS cfg) - int (d_symbols_per_preamble s))"
proof -
  let ?n = "BEIDOU_CNAV2_STRING_SYMBOLS cfg - d_symbols_per_preamble s"
  have n: "nat (int (BEIDOU_CNAV2_STRING_SYMBOLS cfg) - int (d_symbols_per_preamble s)) = ?n"
    using assms(2) by simp
  have "extract_loop (d_symbol_history s) (d_symbols_per_preamble s) c ?n 0
          (replicate (BEIDOU_CNAV2_DATA_SYMBOLS cfg) (Finite 0)) =
        Inr (map (resolve_polarity c) (take ?n (drop (d_symbols_per_preamble s) (d_symbol_history s)))
             @ replicate (BEIDOU_CNAV2_DATA_SYMBOLS cfg - ?n) (Finite 0))"
    using extract_loop_eq [of ?n "d_symbols_per_preamble s" "d_symbol_history s"
        "replicate (BEIDOU_CNAV2_DATA_SYMBOLS cfg) (Finite 0)" 0 c] assms
    by simp
  then show ?thesis
    by (simp add: fetch_and_decode_def Let_def n)
qed

subsection \<open>Facts about the test data\<close>

lemmas eval_defs =
  general_work_def sync_phase_def push_symbol_def preamble_correlation_def corr_loop.simps
  frame_sync_def deque_at_def update_TOW_def annotate_def dump_record_def pop_used_def
  Let_def test_decoder_def test_symbol_def test_nav_def small_constants_def
  test_collaborator_def full_strength_def corr_value_of_def exact_arith_def exact_op_def
  narrow_int32_def

lemma string_constants_ok: "constants_ok string_constants"
  by (simp add: constants_ok_def string_constants_def)

lemma locked_decoder_inv: "decoder_inv string_constants (locked_decoder 627 e)"
  "decoder_inv string_constants (locked_decoder 315 e)"
  by (simp_all add: decoder_inv_def locked_decoder_def test_decoder_def string_constants_def)

lemma locked_decoder_due: "decode_due string_constants (locked_decoder 627 e)"
  by (simp add: decode_due_def locked_decoder_def test_decoder_def string_constants_def)

lemma crc_reported_test_collaborator:
  "crc_reported cfg (test_collaborator b w) s x \<noteq> Some (\<not> b)"
  by (auto simp: crc_reported_def fetch_and_decode_def decode_string_def Let_def
      publish_new_data_def test_collaborator_def split: sum.splits)

lemma test_collaborator_publish:
  "flag_TOW_new (d_nav (publish_new_data (test_collaborator b w) s)) = flag_TOW_new (d_nav s)"
  "SOW (d_nav (publish_new_data (test_collaborator b w) s)) = SOW (d_nav s)"
  by (simp_all add: publish_new_data_def test_collaborator_def Let_def)

lemma test_collaborator_nav:
  assumes "decode_due cfg s" and "sync_phase cfg (test_collaborator b w) s x = Inr m"
  shows "flag_TOW_new (d_nav m) = w \<and> SOW (d_nav m) = Finite 18.5"
proof -
  from assms obtain c s1 where
    f: "fetch_and_decode cfg (test_collaborator b w) (push_symbol s x) c = Inr s1"
    and m: "m = crc_outcome s1"
    by (auto simp: sync_phase_corr frame_sync_def decode_frame_def decode_due_def
        split: sum.splits if_splits)
  from f obtain arr fl where "decode_string (test_collaborator b w) (push_symbol s x) arr fl = Inr s1"
    by (auto simp: fetch_and_decode_def Let_def split: sum.splits)
  then obtain bits where
    "s1 = publish_new_data (test_collaborator b w)
            ((push_symbol s x)\<lparr>d_nav := string_decoder (test_collaborator b w)
                                          (d_nav (push_symbol s x)) bits\<rparr>)"
    by (auto simp: decode_string_def split: sum.splits)
  then have "flag_TOW_new (d_nav s1) = w \<and> SOW (d_nav s1) = Finite 18.5"
    by (simp add: test_collaborator_publish) (simp add: test_collaborator_def)
  then show ?thesis using m by simp
qed

lemma small_make_decoder:
  "make_decoder small_constants 0 False test_nav = Inr (test_decoder 0 0 0 0 [])"
  by (simp add: make_decoder_def expand_preamble_def preambles_bits_def small_constants_def
      test_decoder_def)

lemma run_singleD:
  "run fp cfg col s [inp] = Inr (s', rs) \<Longrightarrow> \<exists>r. general_work fp cfg col s inp = Inr (s', r)"
  by (auto split: sum.splits)

text \<open>
  In LOCKED with the one-symbol preamble, the window of a decode starts with the preamble
  symbol \<open>a\<close>; if the 312 data symbols all equal \<open>b\<close>, the bits are all \<open>1\<close> when \<open>b\<close> is
  positive and all \<open>0\<close> otherwise. So the decodes of a stream of positive symbols all
  fail the CRC test of \<open>bit_collaborator\<close>.
\<close>

lemma bit_collaborator_crc:
  assumes "d_symbol_history s = a # replicate 312 b"
    and "d_symbols_per_preamble s = 1" and "d_preambles_symbols s = [1]"
    and "\<not> lt_zero (Prompt_I a)"
  shows "crc_reported string_constants bit_collaborator s x = Some (\<not> gt_zero (Prompt_I b))"
proof -
  have c: "corr_value_of string_constants s x = Inr 1"
    using assms
    by (simp add: corr_value_of_def preamble_correlation_def string_constants_def corr_loop.simps)
  have "fetch_and_decode string_constants bit_collaborator (push_symbol s x) 1 =
      decode_string bit_collaborator (push_symbol s x) (replicate 312 (Prompt_I b)) 312"
    using fetch_and_decode_symbols [of string_constants "push_symbol s x" bit_collaborator 1] assms
    by (simp add: string_constants_def resolve_polarity_def)
  moreover have "symbols_to_bits (replicate 312 (Prompt_I b)) 312 =
      Inr (replicate 288 (bit_value (Prompt_I b)))"
    using symbols_to_bits_eq [of 312 "replicate 312 (Prompt_I b)"] by simp
  ultimately show ?thesis
    using c
    by (simp add: crc_reported_def decode_string_def publish_new_data_def bit_collaborator_def
        Let_def bit_value_def)
qed

lemma bit_collaborator_results:
  "d_symbol_history s = replicate 313 (test_symbol 1 0) \<Longrightarrow>
   d_symbols_per_preamble s = 1 \<Longrightarrow> d_preambles_symbols s = [1] \<Longrightarrow>
   list_all (\<lambda>b. \<not> b)
     (crc_results fp string_constants bit_collaborator s (replicate n (test_symbol 1 0, 0)))"
proof (induction n arbitrary: s)
  case 0
  then show ?case by simp
next
  case (Suc n)
  have h: "d_symbol_history s = test_symbol 1 0 # replicate 312 (test_symbol 1 0)"
    using Suc.prems(1) by (simp add: numeral_eq_Suc)
  have c: "crc_reported string_constants bit_collaborator s (test_symbol 1 0) = Some False"
    using bit_collaborator_crc [OF h Suc.prems(2,3), of "test_symbol 1 0"]
    by (simp add: test_symbol_def)
  show ?case
  proof (cases "general_work fp string_constants bit_collaborator s (test_symbol 1 0, 0)")
    case (Inl e)
    then show ?thesis by simp
  next
    case (Inr p)
    obtain s1 r where p: "p = (s1, r)" by (cases p)
    have g: "general_work fp string_constants bit_collaborator s (test_symbol 1 0, 0) = Inr (s1, r)"
      using Inr p by simp
    have "d_symbol_history s1 = replicate 313 (test_symbol 1 0)"
      using general_work_history [OF g] Suc.prems(1)
      by (simp add: string_constants_def replicate_append_same)
    moreover have "d_symbols_per_preamble s1 = 1" "d_preambles_symbols s1 = [1]"
      using general_work_template [OF g] Suc.prems(2,3) by simp_all
    ultimately have "list_all (\<lambda>b. \<not> b)
        (crc_results fp string_constants bit_collaborator s1 (replicate n (test_symbol 1 0, 0)))"
      by (rule Suc.IH)
    then show ?thesis using g c by simp
  qed
qed








subsection \<open>Claim C1: two preambles one period apart give NO_LOCK, PRESYNC, LOCKED\<close>

text \<open>
  C1. Let the decoder be in NO_LOCK (\<open>d_stat = 0\<close>) and let the call on input \<open>inp\<close>, which
  is the call with sample index \<open>k = d_sample_counter s + 1\<close>, see a full-strength
  correlation. Then that call returns in PRESYNC with preamble index \<open>k\<close> and with the
  tracking time stamp of the oldest symbol of the window as the time anchor. Whatever
  the next \<open>period - 1\<close> inputs are, every one of these calls returns and leaves the
  machine in PRESYNC with preamble index \<open>k\<close> (no demotion in between). If the call with
  sample index \<open>k + period\<close> sees a full-strength correlation again, it returns in LOCKED
  with preamble index \<open>k + period\<close>. The period is the constant
  \<^verbatim>\<open>BEIDOU_CNAV2_PREAMBLE_PERIOD_SYMBOLS\<close> that line 293 compares with the \<^verbatim>\<open>int32_t\<close>
  variable \<^verbatim>\<open>preamble_diff\<close>. That variable never holds \<open>2 ^ 31\<close> or more, so the
  comparison can succeed only for a period below \<open>2 ^ 31\<close>, which is the range assumed
  of the constant.
\<close>

theorem preamble_pair_locks:
  assumes inv: "decoder_inv cfg s"
    and fits: "BEIDOU_CNAV2_PREAMBLE_LENGTH_SYMBOLS cfg \<le> BEIDOU_CNAV2_STRING_SYMBOLS cfg"
    and stat: "d_stat s = 0"
    and first: "full_strength cfg s (fst inp)"
    and len: "length inps + 1 = BEIDOU_CNAV2_PREAMBLE_PERIOD_SYMBOLS cfg"
    and int32: "BEIDOU_CNAV2_PREAMBLE_PERIOD_SYMBOLS cfg < 2 ^ 31"
  shows "\<exists>s1 r1. general_work fp cfg col s inp = Inr (s1, r1) \<and>
           d_stat s1 = 1 \<and> d_preamble_index s1 = d_sample_counter s + 1 \<and>
           d_preamble_time_samples s1 =
             Tracking_sample_counter (hd (d_symbol_history s @ [fst inp])) \<and>
           (\<forall>n\<le>length inps. \<exists>s2 rs. run fp cfg col s1 (take n inps) = Inr (s2, rs) \<and>
                d_stat s2 = 1 \<and> d_preamble_index s2 = d_sample_counter s + 1) \<and>
           (\<exists>s2 rs. run fp cfg col s1 inps = Inr (s2, rs) \<and>
                d_sample_counter s2 + 1 =
                  d_sample_counter s + 1 + BEIDOU_CNAV2_PREAMBLE_PERIOD_SYMBOLS cfg \<and>
                (\<forall>again. full_strength cfg s2 (fst again) \<longrightarrow>
                   (\<exists>s3 r3. general_work fp cfg col s2 again = Inr (s3, r3) \<and> d_stat s3 = 2 \<and>
                      d_preamble_index s3 =
                        d_sample_counter s + 1 + BEIDOU_CNAV2_PREAMBLE_PERIOD_SYMBOLS cfg)))"
proof -
  let ?P = "BEIDOU_CNAV2_PREAMBLE_PERIOD_SYMBOLS cfg"
  from no_lock_detect_step [OF inv fits stat first, where col=col and fp=fp]
  obtain s1 r1 where g: "general_work fp cfg col s inp = Inr (s1, r1)"
    and s1: "decoder_inv cfg s1" "d_stat s1 = 1" "d_preamble_index s1 = d_sample_counter s + 1"
      "d_preamble_time_samples s1 =
         Tracking_sample_counter (hd (d_symbol_history s @ [fst inp]))"
      "d_sample_counter s1 = d_sample_counter s + 1"
    by blast
  have wait: "\<exists>s2 rs. run fp cfg col s1 (take n inps) = Inr (s2, rs) \<and> decoder_inv cfg s2 \<and>
       d_stat s2 = 1 \<and> d_preamble_index s2 = d_sample_counter s + 1 \<and>
       d_sample_counter s2 = d_sample_counter s1 + length (take n inps)" for n
  proof -
    have "d_sample_counter s1 + length (take n inps) < d_preamble_index s1 + ?P"
      using s1 len by simp
    moreover have "d_preamble_index s1 \<le> d_sample_counter s1 + 1"
      using s1 by simp
    ultimately show ?thesis
      using presync_wait_run [OF fits s1(1,2), where col=col and fp=fp and inps="take n inps"]
        s1(3)
      by auto
  qed
  from wait [of "length inps"] obtain s2 rs where
    r: "run fp cfg col s1 inps = Inr (s2, rs)" and
    s2: "decoder_inv cfg s2" "d_stat s2 = 1" "d_preamble_index s2 = d_sample_counter s + 1"
      "d_sample_counter s2 = d_sample_counter s1 + length inps"
    by auto
  have cnt: "d_sample_counter s2 + 1 = d_preamble_index s2 + ?P"
    using s2 s1 len by simp
  have lock: "\<exists>s3 r3. general_work fp cfg col s2 again = Inr (s3, r3) \<and> d_stat s3 = 2 \<and>
        d_preamble_index s3 = d_sample_counter s + 1 + ?P"
    if "full_strength cfg s2 (fst again)" for again
    using presync_lock_step [OF s2(1) fits s2(2) that cnt int32, where col=col and fp=fp]
      cnt s2(3)
    by auto
  have "\<forall>n\<le>length inps. \<exists>s2 rs. run fp cfg col s1 (take n inps) = Inr (s2, rs) \<and>
                d_stat s2 = 1 \<and> d_preamble_index s2 = d_sample_counter s + 1"
    using wait by blast
  moreover have "\<exists>s2 rs. run fp cfg col s1 inps = Inr (s2, rs) \<and>
                d_sample_counter s2 + 1 = d_sample_counter s + 1 + ?P \<and>
                (\<forall>again. full_strength cfg s2 (fst again) \<longrightarrow>
                   (\<exists>s3 r3. general_work fp cfg col s2 again = Inr (s3, r3) \<and> d_stat s3 = 2 \<and>
                      d_preamble_index s3 = d_sample_counter s + 1 + ?P))"
    using r cnt s2(3) lock by auto
  ultimately show ?thesis using g s1 by blast
qed

theorem preamble_pair_locks_witness:
  "decoder_inv small_constants (test_decoder 0 2 0 0 [test_symbol 1 0, test_symbol 1 1]) \<and>
   d_stat (test_decoder 0 2 0 0 [test_symbol 1 0, test_symbol 1 1]) = 0 \<and>
   full_strength small_constants (test_decoder 0 2 0 0 [test_symbol 1 0, test_symbol 1 1])
     (test_symbol 1 2) \<and>
   BEIDOU_CNAV2_PREAMBLE_PERIOD_SYMBOLS small_constants < 2 ^ 31 \<and>
   (\<exists>s1 r1 s2 rs s3 r3.
      general_work exact_arith small_constants (test_collaborator False False)
        (test_decoder 0 2 0 0 [test_symbol 1 0, test_symbol 1 1]) (test_symbol 1 2, 0)
        = Inr (s1, r1) \<and>
      d_stat s1 = 1 \<and> d_preamble_index s1 = 3 \<and> d_preamble_time_samples s1 = 0 \<and>
      run exact_arith small_constants (test_collaborator False False) s1 [(test_symbol 1 3, 0)] = Inr (s2, rs) \<and>
      d_stat s2 = 1 \<and> d_preamble_index s2 = 3 \<and>
      full_strength small_constants s2 (test_symbol 1 4) \<and>
      general_work exact_arith small_constants (test_collaborator False False) s2 (test_symbol 1 4, 0)
        = Inr (s3, r3) \<and>
      d_stat s3 = 2 \<and> d_preamble_index s3 = 5)"
proof -
  let ?col = "test_collaborator False False"
  let ?s = "test_decoder 0 2 0 0 [test_symbol 1 0, test_symbol 1 1]"
  have inv: "decoder_inv small_constants ?s"
    by (simp add: decoder_inv_def test_decoder_def small_constants_def)
  have fits: "BEIDOU_CNAV2_PREAMBLE_LENGTH_SYMBOLS small_constants
                \<le> BEIDOU_CNAV2_STRING_SYMBOLS small_constants"
    by (simp add: small_constants_def)
  have stat: "d_stat ?s = 0" by (simp add: test_decoder_def)
  have first: "full_strength small_constants ?s (fst (test_symbol 1 2, 0::nat))"
    by (simp add: eval_defs)
  have len: "length [(test_symbol 1 3, 0::nat)] + 1
               = BEIDOU_CNAV2_PREAMBLE_PERIOD_SYMBOLS small_constants"
    by (simp add: small_constants_def)
  have int32: "BEIDOU_CNAV2_PREAMBLE_PERIOD_SYMBOLS small_constants < 2 ^ 31"
    by (simp add: small_constants_def)
  from preamble_pair_locks [OF inv fits stat first len int32,
      where col="?col" and fp=exact_arith]
  obtain s1 r1 s2 rs where
    g1: "general_work exact_arith small_constants ?col ?s (test_symbol 1 2, 0) = Inr (s1, r1)"
    and s1: "d_stat s1 = 1" "d_preamble_index s1 = d_sample_counter ?s + 1"
      "d_preamble_time_samples s1 =
         Tracking_sample_counter (hd (d_symbol_history ?s @ [fst (test_symbol 1 2, 0::nat)]))"
    and mid: "\<forall>n\<le>length [(test_symbol 1 3, 0::nat)]. \<exists>s2 rs.
        run exact_arith small_constants ?col s1 (take n [(test_symbol 1 3, 0)]) = Inr (s2, rs) \<and>
        d_stat s2 = 1 \<and> d_preamble_index s2 = d_sample_counter ?s + 1"
    and r: "run exact_arith small_constants ?col s1 [(test_symbol 1 3, 0)] = Inr (s2, rs)"
    and lock: "\<forall>again. full_strength small_constants s2 (fst again) \<longrightarrow>
        (\<exists>s3 r3. general_work exact_arith small_constants ?col s2 again = Inr (s3, r3) \<and> d_stat s3 = 2 \<and>
           d_preamble_index s3 = d_sample_counter ?s + 1
             + BEIDOU_CNAV2_PREAMBLE_PERIOD_SYMBOLS small_constants)"
    by blast
  from mid [rule_format, of 1] r
  have s2: "d_stat s2 = 1" "d_preamble_index s2 = d_sample_counter ?s + 1" by auto
  obtain r2 where g2: "general_work exact_arith small_constants ?col s1 (test_symbol 1 3, 0) = Inr (s2, r2)"
    using run_singleD [OF r] by blast
  have h1: "d_symbol_history s1 = [test_symbol 1 1, test_symbol 1 2]"
    using general_work_history [OF g1] by (simp add: test_decoder_def small_constants_def)
  have h2: "d_symbol_history s2 = [test_symbol 1 2, test_symbol 1 3]"
    using general_work_history [OF g2] h1 by (simp add: small_constants_def)
  have t: "d_preambles_symbols s2 = [1]" "d_symbols_per_preamble s2 = 1"
    using general_work_template [OF g1] general_work_template [OF g2]
    by (simp_all add: test_decoder_def)
  have again: "full_strength small_constants s2 (test_symbol 1 4)"
    by (simp add: full_strength_def corr_value_of_def preamble_correlation_def corr_loop.simps
        h2 t small_constants_def test_symbol_def)
  with lock obtain s3 r3 where
    "general_work exact_arith small_constants ?col s2 (test_symbol 1 4, 0) = Inr (s3, r3)"
    "d_stat s3 = 2"
    "d_preamble_index s3 = d_sample_counter ?s + 1
       + BEIDOU_CNAV2_PREAMBLE_PERIOD_SYMBOLS small_constants"
    by fastforce
  moreover have "d_sample_counter ?s + 1 = 3"
    "BEIDOU_CNAV2_PREAMBLE_PERIOD_SYMBOLS small_constants = 2"
    "Tracking_sample_counter (hd (d_symbol_history ?s @ [fst (test_symbol 1 2, 0::nat)])) = 0"
    by (simp_all add: test_decoder_def small_constants_def test_symbol_def)
  ultimately show ?thesis
    using inv stat first int32 g1 s1 r s2 again by auto
qed

subsection \<open>Claim C2: nine consecutive CRC failures lose the lock, eight do not\<close>

text \<open>
  C2. Let the decoder be in LOCKED right after a preamble (sample counter equal to the
  preamble index), with \<open>c\<close> consecutive failures counted, and let every frame decode of
  the run report a CRC failure (every entry of \<open>crc_results\<close> is false), for whatever
  collaborator. Then the run returns, and with \<open>k\<close> the number of whole string periods
  in it: as long as \<open>c + k\<close> does not exceed the limit of 8, the run has decoded \<open>k\<close>
  frames, the machine is still in LOCKED, the frame sync flag is as it was, the counter
  is \<open>c + k\<close> and the preamble index has advanced by \<open>k\<close> string periods; and the run
  that ends with the decode that takes the counter to 9 ends in NO_LOCK with the frame
  sync flag cleared. For \<open>c = 0\<close>: no demotion up to and including the 8th failure,
  demotion exactly at the 9th.
\<close>

theorem crc_failure_accumulation:
  assumes ok: "constants_ok cfg"
    and fails: "list_all (\<lambda>b. \<not> b) (crc_results fp cfg col s inps)"
    and inv: "decoder_inv cfg s" and stat: "d_stat s = 2"
    and at: "d_sample_counter s = d_preamble_index s"
  shows "\<exists>s' rs. run fp cfg col s inps = Inr (s', rs) \<and>
    (d_CRC_error_counter s + length inps div BEIDOU_CNAV2_STRING_SYMBOLS cfg \<le> CRC_ERROR_LIMIT \<longrightarrow>
       d_stat s' = 2 \<and> d_flag_frame_sync s' = d_flag_frame_sync s \<and>
       d_CRC_error_counter s' =
         d_CRC_error_counter s + length inps div BEIDOU_CNAV2_STRING_SYMBOLS cfg \<and>
       d_preamble_index s' = d_preamble_index s +
         (length inps div BEIDOU_CNAV2_STRING_SYMBOLS cfg) * BEIDOU_CNAV2_STRING_SYMBOLS cfg \<and>
       length (crc_results fp cfg col s inps)
         = length inps div BEIDOU_CNAV2_STRING_SYMBOLS cfg) \<and>
    (d_CRC_error_counter s \<le> CRC_ERROR_LIMIT \<and>
     length inps = (CRC_ERROR_LIMIT + 1 - d_CRC_error_counter s) * BEIDOU_CNAV2_STRING_SYMBOLS cfg \<longrightarrow>
       d_stat s' = 0 \<and> \<not> d_flag_frame_sync s' \<and>
       d_CRC_error_counter s' = CRC_ERROR_LIMIT + 1 \<and>
       d_preamble_index s' = d_preamble_index s + length inps \<and>
       length (crc_results fp cfg col s inps) = CRC_ERROR_LIMIT + 1 - d_CRC_error_counter s)"
proof -
  let ?S = "BEIDOU_CNAV2_STRING_SYMBOLS cfg"
  let ?c = "d_CRC_error_counter s"
  have fits: "BEIDOU_CNAV2_PREAMBLE_LENGTH_SYMBOLS cfg \<le> ?S" and pos: "0 < ?S"
    using ok by (simp_all add: constants_ok_def)
  obtain s' rs where r: "run fp cfg col s inps = Inr (s', rs)"
    using run_total [OF ok inv, where col=col and inps=inps and fp=fp] by blast
  have A: "d_stat s' = 2 \<and> d_flag_frame_sync s' = d_flag_frame_sync s \<and>
       d_CRC_error_counter s' = ?c + length inps div ?S \<and>
       d_preamble_index s' = d_preamble_index s + (length inps div ?S) * ?S \<and>
       length (crc_results fp cfg col s inps) = length inps div ?S"
    if le: "?c + length inps div ?S \<le> CRC_ERROR_LIMIT"
  proof -
    let ?k = "length inps div ?S"
    let ?xs = "take (?k * ?S) inps" and ?ys = "drop (?k * ?S) inps"
    have kl: "?k * ?S \<le> length inps" by simp
    then have lx: "length ?xs = ?k * ?S" by simp
    have ly: "length ?ys < ?S"
      using pos by (simp add: minus_div_mult_eq_mod)
    obtain t rt where rx: "run fp cfg col s ?xs = Inr (t, rt)"
      using run_total [OF ok inv, where col=col and inps="?xs" and fp=fp] by blast
    have split: "crc_results fp cfg col s inps =
        crc_results fp cfg col s ?xs @ crc_results fp cfg col t ?ys"
      using crc_results_append [OF rx, of ?ys] by simp
    have fx: "list_all (\<lambda>b. \<not> b) (crc_results fp cfg col s ?xs)"
      using fails split by simp
    from failed_frames_run [OF ok fx inv stat at lx le] rx
    have t: "decoder_inv cfg t" "d_stat t = 2" "d_sample_counter t = d_preamble_index t"
        "d_preamble_index t = d_preamble_index s + ?k * ?S"
        "d_CRC_error_counter t = ?c + ?k"
        "d_flag_frame_sync t = d_flag_frame_sync s"
        "crc_results fp cfg col s ?xs = replicate ?k False"
      by auto
    have "d_sample_counter t + length ?ys < d_preamble_index t + ?S"
      using ly t(3) by simp
    from locked_idle_run [OF fits t(1,2) this, where col=col and fp=fp] obtain s2 rs2 where
      r2: "run fp cfg col t ?ys = Inr (s2, rs2)" and
      s2: "d_stat s2 = 2" "d_preamble_index s2 = d_preamble_index t"
        "d_CRC_error_counter s2 = d_CRC_error_counter t"
        "d_flag_frame_sync s2 = d_flag_frame_sync t"
        "crc_results fp cfg col t ?ys = []"
      by blast
    have "run fp cfg col s (?xs @ ?ys) = Inr (s2, rt @ rs2)"
      using rx r2 by (simp only: run_append sum.case prod.case)
    then have "s' = s2" using r by simp
    then show ?thesis using t s2 split by simp
  qed
  have B: "d_stat s' = 0 \<and> \<not> d_flag_frame_sync s' \<and>
       d_CRC_error_counter s' = CRC_ERROR_LIMIT + 1 \<and>
       d_preamble_index s' = d_preamble_index s + length inps \<and>
       length (crc_results fp cfg col s inps) = CRC_ERROR_LIMIT + 1 - ?c"
    if c: "?c \<le> CRC_ERROR_LIMIT" and l: "length inps = (CRC_ERROR_LIMIT + 1 - ?c) * ?S"
  proof -
    let ?k = "CRC_ERROR_LIMIT - ?c"
    let ?xs = "take (?k * ?S) inps" and ?ys = "drop (?k * ?S) inps"
    have l': "length inps = ?k * ?S + ?S" using c l by (simp add: Suc_diff_le)
    have lx: "length ?xs = ?k * ?S" and ly: "length ?ys = ?S" using l' by simp_all
    have le: "?c + ?k \<le> CRC_ERROR_LIMIT" using c by simp
    obtain t rt where rx: "run fp cfg col s ?xs = Inr (t, rt)"
      using run_total [OF ok inv, where col=col and inps="?xs" and fp=fp] by blast
    have split: "crc_results fp cfg col s inps =
        crc_results fp cfg col s ?xs @ crc_results fp cfg col t ?ys"
      using crc_results_append [OF rx, of ?ys] by simp
    have fx: "list_all (\<lambda>b. \<not> b) (crc_results fp cfg col s ?xs)"
      and fy: "list_all (\<lambda>b. \<not> b) (crc_results fp cfg col t ?ys)"
      using fails split by simp_all
    from failed_frames_run [OF ok fx inv stat at lx le] rx
    have t: "decoder_inv cfg t" "d_stat t = 2" "d_sample_counter t = d_preamble_index t"
        "d_preamble_index t = d_preamble_index s + ?k * ?S"
        "d_CRC_error_counter t = ?c + ?k"
        "d_flag_frame_sync t = d_flag_frame_sync s"
        "crc_results fp cfg col s ?xs = replicate ?k False"
      by auto
    from failed_frame_run [OF ok fy t(1,2,3) ly] obtain s2 rs2 where
      r2: "run fp cfg col t ?ys = Inr (s2, rs2)" and
      s2: "d_preamble_index s2 = d_preamble_index t + ?S"
        "d_CRC_error_counter s2 = d_CRC_error_counter t + 1"
        "d_flag_frame_sync s2 =
           (if d_CRC_error_counter t + 1 > CRC_ERROR_LIMIT then False else d_flag_frame_sync t)"
        "d_stat s2 = (if d_CRC_error_counter t + 1 > CRC_ERROR_LIMIT then 0 else 2)"
        "crc_results fp cfg col t ?ys = [False]"
      by blast
    have "run fp cfg col s (?xs @ ?ys) = Inr (s2, rt @ rs2)"
      using rx r2 by (simp only: run_append sum.case prod.case)
    then have "s' = s2" using r by simp
    then show ?thesis using t s2 c l' split by simp
  qed
  show ?thesis using r A B by blast
qed

text \<open>
  An example with \<open>bit_collaborator\<close>, which passes the CRC test on a frame of negative
  data symbols and fails it on the frames of this run of positive symbols: after 8
  strings the lock is kept with 8 failures counted, after 9 it is lost.
\<close>

theorem crc_failure_accumulation_witness:
  "constants_ok string_constants \<and>
   crc_reported string_constants bit_collaborator
     (test_decoder 2 627 315 0 (test_symbol 1 0 # replicate 312 (test_symbol (- 1) 0)))
     (test_symbol 1 0) = Some True \<and>
   list_all (\<lambda>b. \<not> b)
     (crc_results exact_arith string_constants bit_collaborator
        (locked_decoder 315 0) (replicate (8 * 313) (test_symbol 1 0, 0))) \<and>
   list_all (\<lambda>b. \<not> b)
     (crc_results exact_arith string_constants bit_collaborator
        (locked_decoder 315 0) (replicate (9 * 313) (test_symbol 1 0, 0))) \<and>
   decoder_inv string_constants (locked_decoder 315 0) \<and>
   d_stat (locked_decoder 315 0) = 2 \<and>
   d_sample_counter (locked_decoder 315 0) = d_preamble_index (locked_decoder 315 0) \<and>
   (\<exists>s' rs. run exact_arith string_constants bit_collaborator
               (locked_decoder 315 0) (replicate (8 * 313) (test_symbol 1 0, 0)) = Inr (s', rs) \<and>
            d_stat s' = 2 \<and> d_flag_frame_sync s' \<and> d_CRC_error_counter s' = 8) \<and>
   length (crc_results exact_arith string_constants bit_collaborator
             (locked_decoder 315 0) (replicate (8 * 313) (test_symbol 1 0, 0))) = 8 \<and>
   (\<exists>s' rs. run exact_arith string_constants bit_collaborator
               (locked_decoder 315 0) (replicate (9 * 313) (test_symbol 1 0, 0)) = Inr (s', rs) \<and>
            d_stat s' = 0 \<and> \<not> d_flag_frame_sync s' \<and> d_CRC_error_counter s' = 9) \<and>
   length (crc_results exact_arith string_constants bit_collaborator
             (locked_decoder 315 0) (replicate (9 * 313) (test_symbol 1 0, 0))) = 9"
proof -
  let ?s = "locked_decoder 315 0"
  let ?col = "bit_collaborator"
  let ?x8 = "replicate (8 * 313) (test_symbol 1 0, 0::nat)"
  let ?x9 = "replicate (9 * 313) (test_symbol 1 0, 0::nat)"
  have pass: "crc_reported string_constants bit_collaborator
     (test_decoder 2 627 315 0 (test_symbol 1 0 # replicate 312 (test_symbol (- 1) 0)))
     (test_symbol 1 0) = Some True"
    using bit_collaborator_crc [of
        "test_decoder 2 627 315 0 (test_symbol 1 0 # replicate 312 (test_symbol (- 1) 0))"
        "test_symbol 1 0" "test_symbol (- 1) 0" "test_symbol 1 0"]
    by (simp add: test_decoder_def test_symbol_def)
  have hist: "d_symbol_history ?s = replicate 313 (test_symbol 1 0)"
    "d_symbols_per_preamble ?s = 1" "d_preambles_symbols ?s = [1]"
    by (simp_all add: locked_decoder_def test_decoder_def)
  have f8: "list_all (\<lambda>b. \<not> b) (crc_results exact_arith string_constants ?col ?s ?x8)"
    and f9: "list_all (\<lambda>b. \<not> b) (crc_results exact_arith string_constants ?col ?s ?x9)"
    by (rule bit_collaborator_results [OF hist])+
  have st: "d_stat ?s = 2" "d_sample_counter ?s = d_preamble_index ?s"
    "d_CRC_error_counter ?s = 0" "d_flag_frame_sync ?s"
    by (simp_all add: locked_decoder_def test_decoder_def)
  have S: "BEIDOU_CNAV2_STRING_SYMBOLS string_constants = 313"
    by (simp add: string_constants_def)
  from crc_failure_accumulation [OF string_constants_ok f8 locked_decoder_inv(2) st(1,2)]
  have a: "(\<exists>s' rs. run exact_arith string_constants ?col ?s ?x8 = Inr (s', rs) \<and>
            d_stat s' = 2 \<and> d_flag_frame_sync s' \<and> d_CRC_error_counter s' = 8) \<and>
         length (crc_results exact_arith string_constants ?col ?s ?x8) = 8"
    by (auto simp: st S CRC_ERROR_LIMIT_def)
  from crc_failure_accumulation [OF string_constants_ok f9 locked_decoder_inv(2) st(1,2)]
  have b: "(\<exists>s' rs. run exact_arith string_constants ?col ?s ?x9 = Inr (s', rs) \<and>
            d_stat s' = 0 \<and> \<not> d_flag_frame_sync s' \<and> d_CRC_error_counter s' = 9) \<and>
         length (crc_results exact_arith string_constants ?col ?s ?x9) = 9"
    by (auto simp: st S CRC_ERROR_LIMIT_def)
  show ?thesis
    using string_constants_ok pass f8 f9 locked_decoder_inv(2) st(1,2) a b by blast
qed

subsection \<open>Claim C3: which symbols of the frame become bits\<close>

text \<open>
  C3, as amended. \<^verbatim>\<open>decode_string\<close> requires a length parameter of at least \<open>24 + 288\<close>
  and converts exactly the 288 symbols at the indices 24 to 311 of the array, not every
  symbol of it: a strictly positive amplitude gives the bit \<open>1\<close>, any other amplitude the
  bit \<open>0\<close>; the bits are concatenated in order and that string of 288 bits is what the
  string decoder of the navigation message receives.
\<close>

theorem decode_string_bits:
  assumes "24 + 288 \<le> frame_length" and "24 + 288 \<le> length frame_symbols"
  shows "symbols_to_bits frame_symbols frame_length =
           Inr (map bit_value (take 288 (drop 24 frame_symbols))) \<and>
         decode_string col s frame_symbols frame_length =
           Inr (publish_new_data col
                  (s\<lparr>d_nav := string_decoder col (d_nav s)
                                (map bit_value (take 288 (drop 24 frame_symbols)))\<rparr>)) \<and>
         (\<forall>a. bit_value a = (if gt_zero a then CHR ''1'' else CHR ''0''))"
  using symbols_to_bits_eq [OF assms]
  by (simp add: decode_string_def bit_value_def)

theorem decode_string_bits_witness:
  "(24 + 288 \<le> (312::int)) \<and> 24 + 288 \<le> length (replicate 312 (Finite 1)) \<and>
   symbols_to_bits (replicate 312 (Finite 1)) 312 = Inr (replicate 288 (CHR ''1''))"
  using decode_string_bits [where frame_length=312 and frame_symbols="replicate 312 (Finite 1)"
      and col="test_collaborator True True" and s="locked_decoder 0 0"]
  by (simp add: bit_value_def)

text \<open>
  The claim as stated fails: for an array of 312 symbols, the first one negative and the
  others positive, the code makes 288 bits, all \<open>1\<close>, where a bit for each symbol would
  give 312 bits starting with \<open>0\<close>.
\<close>

theorem decode_string_bits_counterexample:
  "symbols_to_bits (Finite (- 1) # replicate 311 (Finite 1)) 312
     \<noteq> Inr (spec_symbols_to_bits (Finite (- 1) # replicate 311 (Finite 1)) 312) \<and>
   symbols_to_bits (Finite (- 1) # replicate 311 (Finite 1)) 312
     = Inr (replicate 288 (CHR ''1'')) \<and>
   spec_symbols_to_bits (Finite (- 1) # replicate 311 (Finite 1)) 312
     = CHR ''0'' # replicate 311 (CHR ''1'')"
proof -
  have "symbols_to_bits (Finite (- 1) # replicate 311 (Finite 1)) 312 =
          Inr (map bit_value (take 288 (drop 24 (Finite (- 1) # replicate 311 (Finite 1)))))"
    by (rule symbols_to_bits_eq) simp_all
  moreover have "drop 24 (Finite (- 1) # replicate 311 (Finite 1)) = replicate 288 (Finite 1)"
    by (simp add: drop_Cons')
  moreover have "replicate 288 (CHR ''1'') \<noteq> CHR ''0'' # replicate 311 (CHR ''1'')"
  proof
    assume "replicate 288 (CHR ''1'') = CHR ''0'' # replicate 311 (CHR ''1'')"
    then have "length (replicate 288 (CHR ''1'')) = length (CHR ''0'' # replicate 311 (CHR ''1''))"
      by (rule arg_cong)
    then show False by simp
  qed
  ultimately show ?thesis
    by (simp add: spec_symbols_to_bits_def bit_value_def)
qed

subsection \<open>Claim C4: polarity invariance of the correlation\<close>

text \<open>
  C4, as amended. Take two decoders with the same template whose histories are exact
  negations of each other, and feed one a symbol and the other its negation. If none
  of the correlated symbols (the first \<^verbatim>\<open>d_symbols_per_preamble\<close> of the window) has an
  amplitude that is exactly zero or NaN, then the two correlations are each other's
  negation, so their absolute values are equal and the full-strength test has the same
  outcome; the correlation is the sum over the correlated positions of the template
  value, subtracted where the amplitude is below zero and added otherwise; and after
  the two calls the histories are again exact negations of each other, so the same
  holds at every step of the two streams.
\<close>

theorem polarity_invariance:
  assumes "d_symbol_history t = map negate_symbol (d_symbol_history s)"
    and "d_preambles_symbols t = d_preambles_symbols s"
    and "d_symbols_per_preamble t = d_symbols_per_preamble s"
    and "list_all (\<lambda>y. Prompt_I y \<noteq> Finite 0 \<and> Prompt_I y \<noteq> NaN)
           (take (d_symbols_per_preamble s) (d_symbol_history s @ [x]))"
  shows "corr_value_of cfg t (negate_symbol x) =
           map_sum (\<lambda>e. e) uminus (corr_value_of cfg s x) \<and>
         (\<forall>c c'. corr_value_of cfg s x = Inr c \<and> corr_value_of cfg t (negate_symbol x) = Inr c'
            \<longrightarrow> \<bar>c'\<bar> = \<bar>c\<bar>) \<and>
         full_strength cfg t (negate_symbol x) = full_strength cfg s x \<and>
         (BEIDOU_CNAV2_STRING_SYMBOLS cfg < length (d_symbol_history s @ [x]) \<and>
          d_symbols_per_preamble s \<le> length (d_symbol_history s @ [x]) \<and>
          d_symbols_per_preamble s \<le> length (d_preambles_symbols s) \<longrightarrow>
            corr_value_of cfg s x =
              Inr (\<Sum>j = 0..<d_symbols_per_preamble s.
                     if lt_zero (Prompt_I ((d_symbol_history s @ [x]) ! j))
                     then - d_preambles_symbols s ! j else d_preambles_symbols s ! j)) \<and>
         (\<forall>col col' w w' s' r t' r'.
            general_work fp cfg col s (x, w) = Inr (s', r) \<and>
            general_work fp cfg col' t (negate_symbol x, w') = Inr (t', r') \<longrightarrow>
              d_symbol_history t' = map negate_symbol (d_symbol_history s') \<and>
              d_preambles_symbols t' = d_preambles_symbols s' \<and>
              d_symbols_per_preamble t' = d_symbols_per_preamble s')"
proof -
  have win: "d_symbol_history t @ [negate_symbol x] = map negate_symbol (d_symbol_history s @ [x])"
    using assms(1) by simp
  have neg: "corr_value_of cfg t (negate_symbol x) =
           map_sum (\<lambda>e. e) uminus (corr_value_of cfg s x)"
    unfolding corr_value_of_def win assms(2,3)
    by (rule preamble_correlation_negate [OF assms(4)])
  have abs: "\<bar>c'\<bar> = \<bar>c\<bar>"
    if "corr_value_of cfg s x = Inr c" "corr_value_of cfg t (negate_symbol x) = Inr c'" for c c'
    using that neg by simp
  have full: "full_strength cfg t (negate_symbol x) = full_strength cfg s x"
    using neg assms(3) by (cases "corr_value_of cfg s x") (simp_all add: full_strength_def)
  have formula: "corr_value_of cfg s x =
              Inr (\<Sum>j = 0..<d_symbols_per_preamble s.
                     if lt_zero (Prompt_I ((d_symbol_history s @ [x]) ! j))
                     then - d_preambles_symbols s ! j else d_preambles_symbols s ! j)"
    if "BEIDOU_CNAV2_STRING_SYMBOLS cfg < length (d_symbol_history s @ [x])"
      "d_symbols_per_preamble s \<le> length (d_symbol_history s @ [x])"
      "d_symbols_per_preamble s \<le> length (d_preambles_symbols s)"
    using that corr_loop_sum [of "d_symbols_per_preamble s" "d_symbol_history s @ [x]"
        "d_preambles_symbols s" 0 0]
    by (simp add: corr_value_of_def preamble_correlation_def)
  have step: "d_symbol_history t' = map negate_symbol (d_symbol_history s') \<and>
              d_preambles_symbols t' = d_preambles_symbols s' \<and>
              d_symbols_per_preamble t' = d_symbols_per_preamble s'"
    if g: "general_work fp cfg col s (x, w) = Inr (s', r)"
      and g': "general_work fp cfg col' t (negate_symbol x, w') = Inr (t', r')"
    for col col' w w' s' r t' r'
    using general_work_history [OF g] general_work_history [OF g']
      general_work_template [OF g] general_work_template [OF g'] assms(1,2,3)
      map_negate_tl [of "d_symbol_history s @ [x]"]
    by simp
  show ?thesis using neg abs full formula step by blast
qed

theorem polarity_invariance_witness:
  "d_symbol_history (test_decoder 0 2 0 0 (map negate_symbol [test_symbol 1 0, test_symbol (- 1) 1]))
     = map negate_symbol (d_symbol_history (test_decoder 0 2 0 0 [test_symbol 1 0, test_symbol (- 1) 1])) \<and>
   list_all (\<lambda>y. Prompt_I y \<noteq> Finite 0 \<and> Prompt_I y \<noteq> NaN)
     (take (d_symbols_per_preamble (test_decoder 0 2 0 0 [test_symbol 1 0, test_symbol (- 1) 1]))
        (d_symbol_history (test_decoder 0 2 0 0 [test_symbol 1 0, test_symbol (- 1) 1])
           @ [test_symbol 1 2])) \<and>
   corr_value_of small_constants
     (test_decoder 0 2 0 0 [test_symbol 1 0, test_symbol (- 1) 1]) (test_symbol 1 2) = Inr 1 \<and>
   corr_value_of small_constants
     (test_decoder 0 2 0 0 (map negate_symbol [test_symbol 1 0, test_symbol (- 1) 1]))
     (negate_symbol (test_symbol 1 2)) = Inr (- 1)"
proof -
  let ?s = "test_decoder 0 2 0 0 [test_symbol 1 0, test_symbol (- 1) 1]"
  let ?t = "test_decoder 0 2 0 0 (map negate_symbol [test_symbol 1 0, test_symbol (- 1) 1])"
  have a: "d_symbol_history ?t = map negate_symbol (d_symbol_history ?s)"
    "d_preambles_symbols ?t = d_preambles_symbols ?s"
    "d_symbols_per_preamble ?t = d_symbols_per_preamble ?s"
    by (simp_all add: test_decoder_def)
  have b: "list_all (\<lambda>y. Prompt_I y \<noteq> Finite 0 \<and> Prompt_I y \<noteq> NaN)
     (take (d_symbols_per_preamble ?s) (d_symbol_history ?s @ [test_symbol 1 2]))"
    by (simp add: test_decoder_def test_symbol_def)
  have c: "corr_value_of small_constants ?s (test_symbol 1 2) = Inr 1"
    by (simp add: eval_defs)
  from polarity_invariance [OF a b, of small_constants] c
  have "corr_value_of small_constants ?t (negate_symbol (test_symbol 1 2)) = Inr (- 1)"
    by simp
  then show ?thesis using a(1) b c by blast
qed

text \<open>
  The claim as stated fails where an amplitude is exactly zero or NaN: the test
  \<^verbatim>\<open>Prompt_I < 0\<close> is false for such an amplitude and for its negation, so both take the
  adding branch. With the template \<open>[1, 1]\<close>, the window with amplitudes \<open>0, 1, 1\<close>
  correlates to 2 and its negation to 0, and so does the window with amplitudes
  \<open>NaN, 1, 1\<close>.
\<close>

theorem polarity_invariance_counterexample:
  "preamble_correlation small_constants [1, 1] 2
     [test_symbol 0 0, test_symbol 1 1, test_symbol 1 2] = Inr 2 \<and>
   preamble_correlation small_constants [1, 1] 2
     (map negate_symbol [test_symbol 0 0, test_symbol 1 1, test_symbol 1 2]) = Inr 0 \<and>
   preamble_correlation small_constants [1, 1] 2
     [(test_symbol 0 0)\<lparr>Prompt_I := NaN\<rparr>, test_symbol 1 1, test_symbol 1 2] = Inr 2 \<and>
   preamble_correlation small_constants [1, 1] 2
     (map negate_symbol [(test_symbol 0 0)\<lparr>Prompt_I := NaN\<rparr>, test_symbol 1 1, test_symbol 1 2])
     = Inr 0 \<and>
   \<bar>2::int\<bar> \<noteq> \<bar>0\<bar>"
  by (simp add: preamble_correlation_def corr_loop.simps small_constants_def
      test_symbol_def negate_symbol_def)

subsection \<open>Claim C5: the time of week of the current symbol\<close>

text \<open>
  C5, as amended. With constants that satisfy \<open>constants_ok\<close> and in a state that
  satisfies \<open>decoder_inv\<close>, as every reachable state does, every call returns, in
  whatever state of the synchroniser, and updates the time of week by exactly one of
  two rules. Let \<open>m\<close> be the state after the frame
  synchronisation. The flag \<^verbatim>\<open>d_flag_preamble\<close> of \<open>m\<close> is set exactly when this call decoded
  a frame and the CRC test of that frame passed. If it is set and the collaborator's
  flag \<^verbatim>\<open>flag_TOW_new\<close> is set, the time of week becomes
  \<^verbatim>\<open>floor((SOW - preamble duration) * 1000) / 1000\<close>, computed in \<^verbatim>\<open>double\<close> arithmetic
  in that order, and \<^verbatim>\<open>flag_TOW_new\<close> is cleared; otherwise (also when a frame was
  decoded and failed its CRC test) the time of week is the previous one plus the code
  period, one \<^verbatim>\<open>double\<close> addition, and \<^verbatim>\<open>flag_TOW_new\<close> is left as it is.
\<close>

theorem tow_update_rule:
  assumes "constants_ok cfg" and "decoder_inv cfg s"
  shows "\<exists>m s' r. sync_phase cfg col s (fst inp) = Inr m \<and>
           general_work fp cfg col s inp = Inr (s', r) \<and>
           d_flag_preamble m =
             (decode_due cfg s \<and> crc_reported cfg col s (fst inp) = Some True) \<and>
           (if d_flag_preamble m \<and> flag_TOW_new (d_nav m)
            then d_TOW_at_current_symbol s' =
                   ddiv fp
                     (dfloor (dmul fp (dsub fp (SOW (d_nav m))
                                               (BEIDOU_CNAV2_PREAMBLE_DURATION_S cfg))
                                      (Finite 1000)))
                     (Finite 1000) \<and>
                 \<not> flag_TOW_new (d_nav s')
            else d_TOW_at_current_symbol s' =
                   dadd fp (d_TOW_at_current_symbol s) (BEIDOU_B2a_CODE_PERIOD cfg) \<and>
                 flag_TOW_new (d_nav s') = flag_TOW_new (d_nav m))"
proof -
  have fits: "BEIDOU_CNAV2_PREAMBLE_LENGTH_SYMBOLS cfg \<le> BEIDOU_CNAV2_STRING_SYMBOLS cfg"
    using assms(1) by (simp add: constants_ok_def)
  obtain m where m: "sync_phase cfg col s (fst inp) = Inr m"
    and g: "general_work fp cfg col s inp =
             Inr (after_sync fp cfg m inp,
                  \<lparr>consumed = 1, produced = [annotate fp (update_TOW fp cfg m) (fst inp)],
                   returned = 1\<rparr>)"
    using general_work_step [OF assms(2) fits, where col=col and inp=inp and fp=fp] assms(1)
    by blast
  have tow: "d_TOW_at_current_symbol m = d_TOW_at_current_symbol s"
    using sync_phase_InrD [OF m] by simp
  show ?thesis
  proof (cases "d_flag_preamble m \<and> flag_TOW_new (d_nav m)")
    case True
    then show ?thesis
      using m g sync_phase_flag_preamble [OF assms m] by (simp add: after_sync_TOW)
  next
    case False
    then show ?thesis
      using m g sync_phase_flag_preamble [OF assms m] tow by (auto simp: after_sync_TOW)
  qed
qed

theorem tow_update_rule_witness:
  "constants_ok string_constants \<and> decoder_inv string_constants (locked_decoder 627 0) \<and>
   (\<exists>m s' r. sync_phase string_constants (test_collaborator True True) (locked_decoder 627 0)
                (test_symbol 1 0) = Inr m \<and>
      general_work exact_arith string_constants (test_collaborator True True)
        (locked_decoder 627 0) (test_symbol 1 0, 0) = Inr (s', r) \<and>
      d_flag_preamble m \<and> flag_TOW_new (d_nav m) \<and>
      d_TOW_at_current_symbol s' = Finite 18.375 \<and> \<not> flag_TOW_new (d_nav s'))"
proof -
  let ?s = "locked_decoder 627 0"
  let ?col = "test_collaborator True True"
  obtain b where b: "crc_reported string_constants ?col ?s
      (fst (test_symbol 1 0, 0::nat)) = Some b"
    using locked_due_step [OF locked_decoder_inv(1) [of 0] string_constants_ok
        locked_decoder_due [of 0],
        where col="?col" and inp="(test_symbol 1 0, 0)"]
    by blast
  with crc_reported_test_collaborator [of string_constants True True ?s "test_symbol 1 0"]
  have c: "crc_reported string_constants ?col ?s (test_symbol 1 0) = Some True"
    by simp
  from tow_update_rule [OF string_constants_ok locked_decoder_inv(1) [of 0],
      where col="?col" and inp="(test_symbol 1 0, 0)" and fp=exact_arith]
  obtain m s' r where m: "sync_phase string_constants ?col ?s (test_symbol 1 0) = Inr m"
    and g: "general_work exact_arith string_constants ?col ?s (test_symbol 1 0, 0) = Inr (s', r)"
    and p: "d_flag_preamble m"
    and rule: "if d_flag_preamble m \<and> flag_TOW_new (d_nav m)
            then d_TOW_at_current_symbol s' =
                   ddiv exact_arith
                     (dfloor (dmul exact_arith
                                (dsub exact_arith (SOW (d_nav m))
                                   (BEIDOU_CNAV2_PREAMBLE_DURATION_S string_constants))
                                (Finite 1000)))
                     (Finite 1000) \<and>
                 \<not> flag_TOW_new (d_nav s')
            else d_TOW_at_current_symbol s' =
                   dadd exact_arith (d_TOW_at_current_symbol ?s)
                     (BEIDOU_B2a_CODE_PERIOD string_constants) \<and>
                 flag_TOW_new (d_nav s') = flag_TOW_new (d_nav m)"
    using c locked_decoder_due [of 0] by auto
  have n: "flag_TOW_new (d_nav m)" "SOW (d_nav m) = Finite 18.5"
    using test_collaborator_nav [OF locked_decoder_due [of 0] m] by simp_all
  have "\<lfloor>(18.5 - 0.125) * (1000::real)\<rfloor> = 18375" by simp
  then have "d_TOW_at_current_symbol s' = Finite 18.375 \<and> \<not> flag_TOW_new (d_nav s')"
    using rule p n by (simp add: string_constants_def exact_arith_def exact_op_def)
  then show ?thesis
    using string_constants_ok locked_decoder_inv(1) m g p n by blast
qed

text \<open>
  The claim as stated fails for a frame that is decoded and fails its CRC test: with
  a decode due, a collaborator that reports the CRC failure and sets \<^verbatim>\<open>flag_TOW_new\<close>,
  the previous time of week 0 and the code period 0.5, the call leaves the time of
  week 0.5 and \<^verbatim>\<open>flag_TOW_new\<close> set, where the first rule would give 18.375 and clear
  the flag.
\<close>

theorem tow_update_rule_counterexample:
  "decode_due string_constants (locked_decoder 627 0) \<and>
   crc_reported string_constants (test_collaborator False True) (locked_decoder 627 0)
     (test_symbol 1 0) = Some False \<and>
   \<not> isl (sync_phase string_constants (test_collaborator False True) (locked_decoder 627 0)
            (test_symbol 1 0)) \<and>
   flag_TOW_new (d_nav (projr (sync_phase string_constants (test_collaborator False True)
                                 (locked_decoder 627 0) (test_symbol 1 0)))) \<and>
   \<not> isl (general_work exact_arith string_constants (test_collaborator False True)
            (locked_decoder 627 0) (test_symbol 1 0, 0)) \<and>
   d_TOW_at_current_symbol
     (fst (projr (general_work exact_arith string_constants (test_collaborator False True)
                    (locked_decoder 627 0) (test_symbol 1 0, 0)))) = Finite 0.5 \<and>
   flag_TOW_new
     (d_nav (fst (projr (general_work exact_arith string_constants
                           (test_collaborator False True) (locked_decoder 627 0)
                           (test_symbol 1 0, 0)))))"
proof -
  let ?s = "locked_decoder 627 0"
  let ?col = "test_collaborator False True"
  from sync_phase_due [OF locked_decoder_inv(1) [of 0] string_constants_ok
      locked_decoder_due [of 0], of ?col "test_symbol 1 0"]
  obtain m b where m: "sync_phase string_constants ?col ?s (test_symbol 1 0) = Inr m"
    and b: "crc_reported string_constants ?col ?s (test_symbol 1 0) = Some b"
    and tow: "d_TOW_at_current_symbol m = d_TOW_at_current_symbol ?s"
    and p: "d_flag_preamble m = b"
    by blast
  have nb: "\<not> b"
    using crc_reported_test_collaborator [of string_constants False True ?s "test_symbol 1 0"] b
    by simp
  have n: "flag_TOW_new (d_nav m)"
    using test_collaborator_nav [OF locked_decoder_due [of 0] m] by simp
  have m': "sync_phase string_constants ?col ?s (fst (test_symbol 1 0, 0::nat)) = Inr m"
    using m by simp
  have g: "general_work exact_arith string_constants ?col ?s (test_symbol 1 0, 0) =
        Inr (after_sync exact_arith string_constants m (test_symbol 1 0, 0),
             \<lparr>consumed = 1,
              produced = [annotate exact_arith (update_TOW exact_arith string_constants m)
                            (fst (test_symbol 1 0, 0::nat))],
              returned = 1\<rparr>)"
    by (rule general_work_sync [OF m'])
  have t0: "d_TOW_at_current_symbol ?s = Finite 0"
    by (simp add: locked_decoder_def test_decoder_def)
  have "d_TOW_at_current_symbol (after_sync exact_arith string_constants m (test_symbol 1 0, 0))
          = Finite 0.5"
    using p nb tow t0
    by (simp add: after_sync_TOW string_constants_def exact_arith_def exact_op_def)
  moreover have "flag_TOW_new (d_nav (after_sync exact_arith string_constants m
      (test_symbol 1 0, 0)))"
    using p nb n by (simp add: after_sync_TOW)
  ultimately show ?thesis
    using locked_decoder_due [of 0] b nb m n g by simp
qed

subsection \<open>Claim C6: drift rejection in PRESYNC\<close>




subsection \<open>Claim C7: one symbol in, one symbol out\<close>

text \<open>
  C7. With constants that satisfy \<open>constants_ok\<close>, the constructor succeeds, and for
  every sequence of inputs, every collaborator and every outcome of the dump writes,
  every call returns, consumes one item, returns 1 and produces exactly one item, the
  annotated copy of its input.
\<close>

theorem one_symbol_in_one_symbol_out:
  assumes "constants_ok cfg"
  shows "\<exists>s0 s rs. make_decoder cfg prn dump nav0 = Inr s0 \<and>
           run fp cfg col s0 inps = Inr (s, rs) \<and>
           list_all2 one_in_one_out inps rs"
proof -
  obtain s0 where m: "make_decoder cfg prn dump nav0 = Inr s0" and i: "decoder_inv cfg s0"
    using make_decoder_inv [OF assms] by blast
  from run_total [OF assms i, where col=col and inps=inps and fp=fp] m show ?thesis by blast
qed

theorem one_symbol_in_one_symbol_out_witness:
  "constants_ok string_constants \<and>
   (\<exists>s0 s rs. make_decoder string_constants 7 True test_nav = Inr s0 \<and>
      run exact_arith string_constants (test_collaborator False False) s0
        [(test_symbol 1 0, 3), (test_symbol (- 1) 1, 0)] = Inr (s, rs) \<and>
      list_all2 one_in_one_out [(test_symbol 1 0, 3), (test_symbol (- 1) 1, 0)] rs)"
  using one_symbol_in_one_symbol_out [OF string_constants_ok,
      where prn=7 and dump=True and ?nav0.0=test_nav and col="test_collaborator False False"
        and inps="[(test_symbol 1 0, 3), (test_symbol (- 1) 1, 0)]"]
    string_constants_ok
  by simp

subsection \<open>Claim C8: the history never exceeds one string\<close>

text \<open>
  C8. In every state that the block reaches from its constructor, a call that returns
  leaves a history of at most \<^verbatim>\<open>BEIDOU_CNAV2_STRING_SYMBOLS\<close> symbols: it is the old
  history with the new symbol appended and, if that is longer than one string, without
  its oldest symbol.
\<close>

theorem history_bounded:
  assumes "make_decoder cfg prn dump nav0 = Inr s0"
    and "run fp cfg col s0 inps = Inr (s, rs)"
    and "general_work fp cfg col s inp = Inr (s', r)"
  shows "length (d_symbol_history s') \<le> BEIDOU_CNAV2_STRING_SYMBOLS cfg \<and>
         d_symbol_history s' =
           (if length (d_symbol_history s @ [fst inp]) > BEIDOU_CNAV2_STRING_SYMBOLS cfg
            then tl (d_symbol_history s @ [fst inp])
            else d_symbol_history s @ [fst inp])"
proof -
  have "length (d_symbol_history s) \<le> BEIDOU_CNAV2_STRING_SYMBOLS cfg"
    using run_history_bound [OF assms(2)] make_decoder_history [OF assms(1)] by simp
  from general_work_history_bound [OF assms(3) this] general_work_history [OF assms(3)]
  show ?thesis by simp
qed

theorem history_bounded_witness:
  "\<exists>s0 s rs s' r.
     make_decoder small_constants 0 False test_nav = Inr s0 \<and>
     run exact_arith small_constants (test_collaborator False False) s0
       [(test_symbol 1 0, 0), (test_symbol 1 1, 0)] = Inr (s, rs) \<and>
     general_work exact_arith small_constants (test_collaborator False False) s (test_symbol 1 2, 0) = Inr (s', r) \<and>
     d_symbol_history s' = [test_symbol 1 1, test_symbol 1 2] \<and>
     length (d_symbol_history s') \<le> BEIDOU_CNAV2_STRING_SYMBOLS small_constants"
proof -
  let ?col = "test_collaborator False False"
  let ?s0 = "test_decoder 0 0 0 0 []"
  let ?s1 = "(test_decoder 0 1 0 0 [test_symbol 1 0])\<lparr>d_TOW_at_current_symbol := Finite 1\<rparr>"
  let ?s2 = "(test_decoder 0 2 0 0 [test_symbol 1 0, test_symbol 1 1])
               \<lparr>d_TOW_at_current_symbol := Finite 2\<rparr>"
  have g1: "\<exists>r. general_work exact_arith small_constants ?col ?s0 (test_symbol 1 0, 0) = Inr (?s1, r)"
    by (simp add: eval_defs)
  have g2: "\<exists>r. general_work exact_arith small_constants ?col ?s1 (test_symbol 1 1, 0) = Inr (?s2, r)"
    by (simp add: eval_defs)
  from g1 g2 obtain rs where
    r: "run exact_arith small_constants ?col ?s0 [(test_symbol 1 0, 0), (test_symbol 1 1, 0)] = Inr (?s2, rs)"
    by auto
  have g3: "\<exists>a. general_work exact_arith small_constants ?col ?s2 (test_symbol 1 2, 0) = Inr a"
    by (simp add: eval_defs)
  then obtain s' r' where
    g: "general_work exact_arith small_constants ?col ?s2 (test_symbol 1 2, 0) = Inr (s', r')"
    by auto
  from history_bounded [OF small_make_decoder r g]
  have "d_symbol_history s' = [test_symbol 1 1, test_symbol 1 2] \<and>
     length (d_symbol_history s') \<le> BEIDOU_CNAV2_STRING_SYMBOLS small_constants"
    by (simp add: test_decoder_def small_constants_def)
  then show ?thesis using small_make_decoder r g by blast
qed

subsection \<open>Claim C9: the decode reads inside the window\<close>

text \<open>
  C9. Let the constants satisfy \<open>constants_ok\<close> and let \<open>s\<close> be reached by calls from a
  state that satisfies \<open>decoder_inv\<close>, as the state the constructor makes does
  (\<open>make_decoder_inv\<close>, \<open>reachable_decoder_inv\<close>). If a decode is due in \<open>s\<close> (LOCKED, and
  the next sample index is the preamble index plus one string), then the call returns
  without any out-of-range access or failed assertion, the window holds one string
  plus one symbol, every index \<open>i + d_symbols_per_preamble\<close> that the extraction reads lies
  inside the window, and the length handed to \<^verbatim>\<open>decode_string\<close> is at least \<open>24 + 288\<close>.
  That length is one string minus the preamble, two constants of the absent header:
  the bound on it is part of \<open>constants_ok\<close>.
\<close>

theorem decode_reads_in_range:
  assumes "constants_ok cfg" and "decoder_inv cfg s0"
    and "run fp cfg col s0 inps = Inr (s, rs)" and "decode_due cfg s"
  shows "(\<exists>s' r. general_work fp cfg col s inp = Inr (s', r)) \<and>
         length (d_symbol_history s @ [fst inp]) = BEIDOU_CNAV2_STRING_SYMBOLS cfg + 1 \<and>
         list_all (\<lambda>i. i + d_symbols_per_preamble s < length (d_symbol_history s @ [fst inp]))
           [0 ..< nat (int (BEIDOU_CNAV2_STRING_SYMBOLS cfg) - int (d_symbols_per_preamble s))] \<and>
         int (BEIDOU_CNAV2_STRING_SYMBOLS cfg) - int (d_symbols_per_preamble s) \<ge> 24 + 288"
proof -
  have inv: "decoder_inv cfg s"
    using run_total [OF assms(1,2), where col=col and inps=inps and fp=fp] assms(3) by auto
  have fits: "BEIDOU_CNAV2_PREAMBLE_LENGTH_SYMBOLS cfg \<le> BEIDOU_CNAV2_STRING_SYMBOLS cfg"
    using assms(1) by (simp add: constants_ok_def)
  have ex: "\<exists>s' r. general_work fp cfg col s inp = Inr (s', r)"
    using general_work_total [OF inv fits, where col=col and inp=inp and fp=fp] assms(1) by blast
  have "1 \<le> d_preamble_index s" using inv assms(4) by (simp add: decoder_inv_def decode_due_def)
  with assms(4) have "BEIDOU_CNAV2_STRING_SYMBOLS cfg \<le> d_sample_counter s"
    by (simp add: decode_due_def)
  then have len: "length (d_symbol_history s) = BEIDOU_CNAV2_STRING_SYMBOLS cfg"
    using inv by (simp add: decoder_inv_def)
  have spp: "d_symbols_per_preamble s = BEIDOU_CNAV2_PREAMBLE_LENGTH_SYMBOLS cfg"
    using inv by (simp add: decoder_inv_def)
  show ?thesis
    using ex len spp assms(1) by (auto simp: constants_ok_def list_all_iff)
qed

theorem decode_reads_in_range_witness:
  "constants_ok string_constants \<and> decoder_inv string_constants (locked_decoder 627 0) \<and>
   run exact_arith string_constants (test_collaborator True True) (locked_decoder 627 0) []
     = Inr (locked_decoder 627 0, []) \<and>
   decode_due string_constants (locked_decoder 627 0) \<and>
   (\<exists>s' r. general_work exact_arith string_constants (test_collaborator True True) (locked_decoder 627 0)
             (test_symbol 1 0, 0) = Inr (s', r)) \<and>
   length (d_symbol_history (locked_decoder 627 0) @ [test_symbol 1 0]) = 314"
proof -
  have r: "run exact_arith string_constants (test_collaborator True True) (locked_decoder 627 0) []
     = Inr (locked_decoder 627 0, [])"
    by simp
  from decode_reads_in_range [OF string_constants_ok locked_decoder_inv(1) [of 0] r
      locked_decoder_due [of 0], where inp="(test_symbol 1 0, 0)"]
  show ?thesis
    using string_constants_ok locked_decoder_inv(1) [of 0] r locked_decoder_due [of 0]
    by (simp add: string_constants_def)
qed

subsection \<open>Claim C10: the failure counter survives a loss of lock\<close>

text \<open>
  C10. Every call returns, and the CRC error counter after it is: zero if a decode was
  due and the CRC test passed, one more than before if a decode was due and the CRC
  test failed, and unchanged otherwise. So only a successful CRC test sets it to zero
  (the constructor apart). A call that takes the machine from LOCKED to NO_LOCK leaves
  the counter incremented and above the limit, and the counter keeps its value while
  the machine is in NO_LOCK and PRESYNC. Hence a decode that fails in LOCKED with the
  counter already at the limit or above takes the machine to NO_LOCK at once, with the
  frame sync flag cleared.
\<close>

theorem crc_counter_survives_demotion:
  assumes "constants_ok cfg" and "decoder_inv cfg s"
  shows "\<exists>s' r. general_work fp cfg col s inp = Inr (s', r) \<and>
           d_CRC_error_counter s' =
             (if decode_due cfg s
              then if crc_reported cfg col s (fst inp) = Some True then 0
                   else d_CRC_error_counter s + 1
              else d_CRC_error_counter s) \<and>
           (d_stat s = 2 \<and> d_stat s' = 0 \<longrightarrow>
              d_CRC_error_counter s' = d_CRC_error_counter s + 1 \<and>
              d_CRC_error_counter s' > CRC_ERROR_LIMIT) \<and>
           (decode_due cfg s \<and> crc_reported cfg col s (fst inp) = Some False \<and>
            d_CRC_error_counter s \<ge> CRC_ERROR_LIMIT \<longrightarrow>
              d_stat s' = 0 \<and> \<not> d_flag_frame_sync s')"
proof -
  have fits: "BEIDOU_CNAV2_PREAMBLE_LENGTH_SYMBOLS cfg \<le> BEIDOU_CNAV2_STRING_SYMBOLS cfg"
    using assms(1) by (simp add: constants_ok_def)
  consider (due) "decode_due cfg s" | (idle) "d_stat s = 2" "\<not> decode_due cfg s"
    | (unlocked) "d_stat s \<noteq> 2"
    by blast
  then show ?thesis
  proof cases
    case due
    from locked_due_step [OF assms(2,1) due, where col=col and inp=inp and fp=fp] due
    show ?thesis by (auto simp: decode_due_def split: if_splits)
  next
    case idle
    from locked_idle_step [OF assms(2) fits idle, where col=col and inp=inp and fp=fp] idle
    show ?thesis by auto
  next
    case unlocked
    then have "\<not> decode_due cfg s" by (simp add: decode_due_def)
    with unlocked_step [OF assms(2) fits unlocked, where col=col and inp=inp and fp=fp] unlocked
    show ?thesis by auto
  qed
qed

theorem crc_counter_survives_demotion_witness:
  "constants_ok string_constants \<and> decoder_inv string_constants (locked_decoder 627 9) \<and>
   decode_due string_constants (locked_decoder 627 9) \<and>
   crc_reported string_constants (test_collaborator False False) (locked_decoder 627 9)
     (test_symbol 1 0) = Some False \<and>
   d_CRC_error_counter (locked_decoder 627 9) \<ge> CRC_ERROR_LIMIT \<and>
   (\<exists>s' r. general_work exact_arith string_constants (test_collaborator False False) (locked_decoder 627 9)
              (test_symbol 1 0, 0) = Inr (s', r) \<and>
            d_stat s' = 0 \<and> \<not> d_flag_frame_sync s' \<and> d_CRC_error_counter s' = 10)"
proof -
  let ?s = "locked_decoder 627 9"
  have c: "crc_reported string_constants (test_collaborator False False) ?s (test_symbol 1 0)
             = Some False"
    by code_simp
  have e: "d_CRC_error_counter ?s = 9"
    by (simp add: locked_decoder_def test_decoder_def)
  from crc_counter_survives_demotion [OF string_constants_ok locked_decoder_inv(1) [of 9],
      where col="test_collaborator False False" and inp="(test_symbol 1 0, 0)"
        and fp=exact_arith]
  have "\<exists>s' r. general_work exact_arith string_constants (test_collaborator False False) ?s
              (test_symbol 1 0, 0) = Inr (s', r) \<and>
            d_stat s' = 0 \<and> \<not> d_flag_frame_sync s' \<and> d_CRC_error_counter s' = 10"
    using c e locked_decoder_due [of 9] by (auto simp: CRC_ERROR_LIMIT_def)
  then show ?thesis
    using string_constants_ok locked_decoder_inv(1) locked_decoder_due c e
    by (simp add: CRC_ERROR_LIMIT_def)
qed

end
